theory Spec2Isabelle
  imports Complex_Main "HOL-Library.Sublist"
begin

section \<open>Data model\<close>

text \<open>
  The objects of \<^verbatim>\<open>script.js\<close> are the JSON values of the Codeforces API. A field
  that the API may leave out is an \<open>option\<close> (\<open>None\<close> is JavaScript's
  \<^verbatim>\<open>undefined\<close>). Numbers are the integers of the API, modelled as unbounded
  \<open>int\<close>: the arithmetic of the script on them (a floor of a division by 100, a sum,
  a minimum) is exact in double precision for every magnitude the service produces.
  Strings are lists of 8-bit characters.
\<close>

record problem =
  contestId :: "int option"
  index :: string
  rating :: "int option"
  tags :: "string list"

record submission =
  verdict :: string
  problem :: problem

record ratingChange =
  contestIdRC :: int
  contestName :: string
  rank :: int
  oldRating :: int
  newRating :: int
  ratingUpdateTimeSeconds :: int

text \<open>
  The field \<^verbatim>\<open>contestId\<close> of a rating change is named \<open>contestIdRC\<close> here, since
  the field \<open>contestId\<close> of a problem already has that name.
\<close>

section \<open>Numbers as strings\<close>

text \<open>
  A template literal \<^verbatim>\<open>`${n}`\<close> and an assignment to \<^verbatim>\<open>textContent\<close> turn a number
  into its decimal numeral, with a leading minus sign for a negative one.
\<close>

definition digitChar :: "nat \<Rightarrow> char" where
  "digitChar d = ''0123456789'' ! d"

fun digits :: "nat \<Rightarrow> string" where
  "digits n = (if n < 10 then [digitChar n] else digits (n div 10) @ [digitChar (n mod 10)])"

declare digits.simps [simp del]

definition numberToString :: "int \<Rightarrow> string" where
  "numberToString n = (if n < 0 then CHR ''-'' # digits (nat (- n)) else digits (nat n))"

text \<open>An absent value is rendered as the word \<^verbatim>\<open>undefined\<close>.\<close>

fun templateString :: "int option \<Rightarrow> string" where
  "templateString None = ''undefined''"
| "templateString (Some n) = numberToString n"

section \<open>Submission normalizer\<close>

text \<open>
  A JavaScript \<^verbatim>\<open>Map\<close> keeps its entries in insertion order: it is an association
  list, \<^verbatim>\<open>has\<close> looks a key up, and \<^verbatim>\<open>set\<close> replaces the value of a key that is
  present in place and appends a new key at the end.
\<close>

type_synonym ('k, 'v) jsMap = "('k \<times> 'v) list"

definition map_has :: "('k, 'v) jsMap \<Rightarrow> 'k \<Rightarrow> bool" where
  "map_has m k = (map_of m k \<noteq> None)"

fun map_set :: "('k, 'v) jsMap \<Rightarrow> 'k \<Rightarrow> 'v \<Rightarrow> ('k, 'v) jsMap" where
  "map_set [] k v = [(k, v)]"
| "map_set ((k', v') # m) k v = (if k' = k then (k, v) # m else (k', v') # map_set m k v)"

definition map_values :: "('k, 'v) jsMap \<Rightarrow> 'v list" where
  "map_values m = map snd m"

text \<open>
  \<^verbatim>\<open>const problemKey = `${sub.problem.contestId}-${sub.problem.index}`;\<close>
\<close>

definition problemKey :: "submission \<Rightarrow> string" where
  "problemKey sub = templateString (contestId (problem sub)) @ ''-'' @ index (problem sub)"

text \<open>
  \<^verbatim>\<open>processSubmissions\<close>: the filter on the verdict, then the \<^verbatim>\<open>forEach\<close> that
  fills the map (a left fold over the accepted submissions), then the values of the map.
\<close>

definition addUnique :: "(string, submission) jsMap \<Rightarrow> submission \<Rightarrow> (string, submission) jsMap" where
  "addUnique uniqueProblems sub =
     (if \<not> map_has uniqueProblems (problemKey sub)
      then map_set uniqueProblems (problemKey sub) sub
      else uniqueProblems)"

definition processSubmissions :: "submission list \<Rightarrow> submission list" where
  "processSubmissions submissions =
     (let acceptedSubmissions = filter (\<lambda>sub. verdict sub = ''OK'') submissions;
          uniqueProblems = foldl addUnique [] acceptedSubmissions
      in map_values uniqueProblems)"

text \<open>
  The ProblemKey of the specification: the pair of the contest identifier and the
  index. \<open>firstAccepted\<close> is the position of the first accepted submission with a given
  ProblemKey in a sequence (the length of the sequence when there is none).
\<close>

definition specKey :: "submission \<Rightarrow> int option \<times> string" where
  "specKey sub = (contestId (problem sub), index (problem sub))"

definition firstAccepted :: "submission list \<Rightarrow> int option \<times> string \<Rightarrow> nat" where
  "firstAccepted submissions k =
     length (takeWhile (\<lambda>t. \<not> (verdict t = ''OK'' \<and> specKey t = k)) submissions)"

section \<open>Remote query client\<close>

text \<open>
  What the network does is the input of the model. One call of \<^verbatim>\<open>fetch(url)\<close> either
  rejects with a transport error (\<open>Rejected\<close>, with the message of the error) or
  resolves to a response with its \<^verbatim>\<open>ok\<close> flag and its \<^verbatim>\<open>status\<close>; reading the body with
  \<^verbatim>\<open>response.json()\<close> either fails (\<open>Unparsable\<close>, with the message of the error) or
  gives the envelope \<open>Json status comment result\<close>. An error object is its message;
  a call of an \<^verbatim>\<open>async\<close> function ends by returning a value, by returning
  \<^verbatim>\<open>undefined\<close> or by throwing.
\<close>

datatype jsError = Error (message: string)

datatype 'a body = Unparsable string | Json string "string option" 'a

datatype 'a reply = Rejected string | Response bool int "'a body"

datatype 'a completion = Returned 'a | ReturnedUndefined | Thrown jsError

record 'a fetchRun =
  outcome :: "'a completion"
  requests :: nat
  delays :: "int list"

text \<open>\<^verbatim>\<open>data.comment || 'API Error'\<close>: an absent or empty comment is falsy.\<close>

definition orElse :: "string option \<Rightarrow> string \<Rightarrow> string" where
  "orElse s d = (case s of None \<Rightarrow> d | Some t \<Rightarrow> if t = [] then d else t)"

text \<open>
  The body of the \<^verbatim>\<open>try\<close> block of \<^verbatim>\<open>fetchWithRetry\<close>: \<open>Inl\<close> is the error it throws,
  \<open>Inr\<close> the \<^verbatim>\<open>data.result\<close> it returns.
\<close>

definition attempt :: "'a reply \<Rightarrow> jsError + 'a" where
  "attempt r =
     (case r of
        Rejected m \<Rightarrow> Inl (Error m)
      | Response ok status b \<Rightarrow>
          if \<not> ok then Inl (Error (''HTTP error! status: '' @ numberToString status))
          else (case b of
                  Unparsable m \<Rightarrow> Inl (Error m)
                | Json dataStatus dataComment dataResult \<Rightarrow>
                    if dataStatus \<noteq> ''OK'' then Inl (Error (orElse dataComment ''API Error''))
                    else Inr dataResult))"

text \<open>
  The \<^verbatim>\<open>for\<close> loop of \<^verbatim>\<open>fetchWithRetry\<close>. \<open>net\<close> gives the reply to each call of
  \<^verbatim>\<open>fetch\<close> by its number, \<open>i\<close> is the loop counter and \<open>waited\<close> the delays of the
  \<^verbatim>\<open>setTimeout\<close> calls so far, in milliseconds. The retry budget is an integer.
  The result records how the call ends, the number of requests issued and the delays.
\<close>

function retryLoop :: "(nat \<Rightarrow> 'a reply) \<Rightarrow> int \<Rightarrow> int \<Rightarrow> int list \<Rightarrow> 'a fetchRun" where
  "retryLoop net retries i waited =
     (if i < retries then
        (case attempt (net (nat i)) of
           Inr dataResult \<Rightarrow> \<lparr>outcome = Returned dataResult, requests = nat (i + 1), delays = waited\<rparr>
         | Inl error \<Rightarrow>
             if i = retries - 1
             then \<lparr>outcome = Thrown error, requests = nat (i + 1), delays = waited\<rparr>
             else retryLoop net retries (i + 1) (waited @ [1000 * (i + 1)]))
      else \<lparr>outcome = ReturnedUndefined, requests = nat i, delays = waited\<rparr>)"
  by pat_completeness auto
termination
  by (relation "measure (\<lambda>(net, retries, i, waited). nat (retries - i))") auto

declare retryLoop.simps [simp del]

text \<open>
  \<^verbatim>\<open>async function fetchWithRetry(url, retries = 3)\<close>: the default applies when the
  argument is left out (\<open>None\<close>).
\<close>

definition fetchWithRetry :: "(string \<Rightarrow> nat \<Rightarrow> 'a reply) \<Rightarrow> string \<Rightarrow> int option \<Rightarrow> 'a fetchRun" where
  "fetchWithRetry fetch url retries =
     retryLoop (fetch url) (case retries of None \<Rightarrow> 3 | Some r \<Rightarrow> r) 0 []"

section \<open>Statistics aggregator\<close>

text \<open>
  The values the statistics hold: a number, a string, and the two numbers that are not
  integers and that the operations below can produce (\<^verbatim>\<open>Math.min()\<close> of no argument is
  \<^verbatim>\<open>Infinity\<close>, \<^verbatim>\<open>undefined + 1\<close> is \<^verbatim>\<open>NaN\<close>).
\<close>

datatype jsPrimitive = Num int | Text string | Infinity | NaN

subsection \<open>Histograms\<close>

text \<open>
  The three histograms are plain objects created by \<^verbatim>\<open>{}\<close>. Such an object has its own
  properties (an association list here; no property below depends on the order of its
  entries) and inherits the properties of \<^verbatim>\<open>Object.prototype\<close>: eleven built-in
  functions (the function under \<^verbatim>\<open>constructor\<close> is \<^verbatim>\<open>Object\<close>, each other one has the
  name of its property) and the accessor \<^verbatim>\<open>__proto__\<close>. Reading \<^verbatim>\<open>obj[k]\<close> gives the own
  property when there is one, the inherited value otherwise, and \<^verbatim>\<open>undefined\<close> when
  there is neither. Writing \<^verbatim>\<open>obj[k] = v\<close> creates or replaces the own property, except
  under the key \<^verbatim>\<open>__proto__\<close>, where the inherited setter ignores a value that is not an
  object.
\<close>

type_synonym jsObject = "(string \<times> jsPrimitive) list"

datatype jsValue = Undefined | Primitive jsPrimitive | NativeFunction string | ObjectPrototype

definition prototypeFunctions :: "(string \<times> string) list" where
  "prototypeFunctions =
     [(''constructor'', ''Object''),
      (''__defineGetter__'', ''__defineGetter__''),
      (''__defineSetter__'', ''__defineSetter__''),
      (''hasOwnProperty'', ''hasOwnProperty''),
      (''__lookupGetter__'', ''__lookupGetter__''),
      (''__lookupSetter__'', ''__lookupSetter__''),
      (''isPrototypeOf'', ''isPrototypeOf''),
      (''propertyIsEnumerable'', ''propertyIsEnumerable''),
      (''toString'', ''toString''),
      (''valueOf'', ''valueOf''),
      (''toLocaleString'', ''toLocaleString'')]"

definition getProperty :: "jsObject \<Rightarrow> string \<Rightarrow> jsValue" where
  "getProperty obj k =
     (case map_of obj k of
        Some v \<Rightarrow> Primitive v
      | None \<Rightarrow>
          if k = ''__proto__'' then ObjectPrototype
          else (case map_of prototypeFunctions k of
                  Some f \<Rightarrow> NativeFunction f
                | None \<Rightarrow> Undefined))"

definition setProperty :: "jsObject \<Rightarrow> string \<Rightarrow> jsPrimitive \<Rightarrow> jsObject" where
  "setProperty obj k v = (if k = ''__proto__'' then obj else map_set obj k v)"

text \<open>
  The expression \<^verbatim>\<open>(obj[k] || 0) + 1\<close>: \<^verbatim>\<open>||\<close> keeps a truthy left operand, and
  \<^verbatim>\<open>+\<close> adds numbers but concatenates as soon as one operand is a string or becomes one
  (a function becomes its source text, which for a built-in function is
  \<^verbatim>\<open>function name() { [native code] }\<close>; \<^verbatim>\<open>Object.prototype\<close> becomes \<^verbatim>\<open>[object Object]\<close>).
\<close>

fun truthy :: "jsValue \<Rightarrow> bool" where
  "truthy Undefined = False"
| "truthy (Primitive (Num n)) = (n \<noteq> 0)"
| "truthy (Primitive (Text s)) = (s \<noteq> [])"
| "truthy (Primitive Infinity) = True"
| "truthy (Primitive NaN) = False"
| "truthy (NativeFunction f) = True"
| "truthy ObjectPrototype = True"

definition orZero :: "jsValue \<Rightarrow> jsValue" where
  "orZero v = (if truthy v then v else Primitive (Num 0))"

fun plusOne :: "jsValue \<Rightarrow> jsPrimitive" where
  "plusOne Undefined = NaN"
| "plusOne (Primitive (Num n)) = Num (n + 1)"
| "plusOne (Primitive (Text s)) = Text (s @ ''1'')"
| "plusOne (Primitive Infinity) = Infinity"
| "plusOne (Primitive NaN) = NaN"
| "plusOne (NativeFunction f) = Text (''function '' @ f @ ''() { [native code] }'' @ ''1'')"
| "plusOne ObjectPrototype = Text (''[object Object]'' @ ''1'')"

definition bump :: "jsObject \<Rightarrow> string \<Rightarrow> jsObject" where
  "bump obj k = setProperty obj k (plusOne (orZero (getProperty obj k)))"

text \<open>
  \<^verbatim>\<open>calculateProblemStats\<close>: the body of its \<^verbatim>\<open>forEach\<close> is \<open>countSubmission\<close>. The
  guard \<^verbatim>\<open>if (sub.problem.rating)\<close> holds for a rating that is present and not 0;
  \<^verbatim>\<open>Math.floor(rating / 100) * 100\<close> is \<open>r div 100 * 100\<close> on integers; the number is the
  key of the property as its decimal numeral. The field \<^verbatim>\<open>tags\<close> of the result is named
  \<open>tagCounts\<close>, since \<open>tags\<close> is the field of a problem.
\<close>

record problemStats =
  levels :: jsObject
  ratings :: jsObject
  tagCounts :: jsObject

definition countSubmission :: "problemStats \<Rightarrow> submission \<Rightarrow> problemStats" where
  "countSubmission stats sub =
     (let level = index (problem sub);
          stats1 = stats\<lparr>levels := bump (levels stats) level\<rparr>;
          stats2 =
            (case rating (problem sub) of
               None \<Rightarrow> stats1
             | Some r \<Rightarrow>
                 if r \<noteq> 0
                 then stats1\<lparr>ratings := bump (ratings stats1) (numberToString (r div 100 * 100))\<rparr>
                 else stats1)
      in stats2\<lparr>tagCounts := foldl bump (tagCounts stats2) (tags (problem sub))\<rparr>)"

definition calculateProblemStats :: "submission list \<Rightarrow> problemStats" where
  "calculateProblemStats acceptedSubmissions =
     foldl countSubmission \<lparr>levels = [], ratings = [], tagCounts = []\<rparr> acceptedSubmissions"

text \<open>
  Notions for stating the properties of a histogram: a key that no inherited property
  has; the count under a key and the sum of all counts (an entry that is not a number
  counts as 0); an object whose entries are positive numbers under distinct keys; and
  the submissions that the rating histogram counts under a bucket.
\<close>

definition ordinaryKey :: "string \<Rightarrow> bool" where
  "ordinaryKey k = (k \<noteq> ''__proto__'' \<and> map_of prototypeFunctions k = None)"

definition countOf :: "jsObject \<Rightarrow> string \<Rightarrow> int" where
  "countOf obj k = (case map_of obj k of Some (Num n) \<Rightarrow> n | _ \<Rightarrow> 0)"

definition countTotal :: "jsObject \<Rightarrow> int" where
  "countTotal obj = sum_list (map (\<lambda>(k, v). case v of Num n \<Rightarrow> n | _ \<Rightarrow> 0) obj)"

definition counter :: "jsObject \<Rightarrow> bool" where
  "counter obj = (distinct (map fst obj) \<and> list_all (\<lambda>(k, v). case v of Num n \<Rightarrow> 0 < n | _ \<Rightarrow> False) obj)"

definition inBucket :: "int \<Rightarrow> submission \<Rightarrow> bool" where
  "inBucket b sub = (case rating (problem sub) of None \<Rightarrow> False | Some r \<Rightarrow> r \<noteq> 0 \<and> r div 100 * 100 = b)"

definition numeric :: "jsPrimitive \<Rightarrow> int" where
  "numeric v = (case v of Num n \<Rightarrow> n | _ \<Rightarrow> 0)"

subsection \<open>Contest statistics\<close>

text \<open>
  \<^verbatim>\<open>Math.min(...ranks)\<close> is a fold of the minimum (the limit of an engine on the number
  of arguments of a call is not modelled); \<^verbatim>\<open>Math.round\<close> rounds to the nearest integer
  and a tie upwards; \<^verbatim>\<open>reduce\<close> is a left fold.
\<close>

fun mathMin :: "int list \<Rightarrow> jsPrimitive" where
  "mathMin [] = Infinity"
| "mathMin (x # xs) = Num (fold min xs x)"

definition mathRound :: "real \<Rightarrow> int" where
  "mathRound x = \<lfloor>x + 1 / 2\<rfloor>"

record contestStats =
  attended :: nat
  bestRank :: jsPrimitive
  avgRating :: jsPrimitive

definition calculateContestStats :: "ratingChange list \<Rightarrow> contestStats" where
  "calculateContestStats ratingHistory =
     (if length ratingHistory = 0 then \<lparr>attended = 0, bestRank = Text ''-'', avgRating = Text ''-''\<rparr>
      else
        let attended = length ratingHistory;
            bestRank = mathMin (map (\<lambda>contest. rank contest) ratingHistory);
            avgRating = mathRound
              (real_of_int (foldl (\<lambda>sum contest. sum + newRating contest) 0 ratingHistory)
                 / real attended)
        in \<lparr>attended = attended, bestRank = bestRank, avgRating = Num avgRating\<rparr>)"

section \<open>History filter\<close>

text \<open>
  \<^verbatim>\<open>toLowerCase\<close> on the letters A to Z (a character outside ASCII is left as it is), and
  \<^verbatim>\<open>String.prototype.includes\<close>: the needle is a prefix of the string or of one of its
  suffixes.
\<close>

definition lowerChar :: "char \<Rightarrow> char" where
  "lowerChar c =
     (case map_of (zip ''ABCDEFGHIJKLMNOPQRSTUVWXYZ'' ''abcdefghijklmnopqrstuvwxyz'') c of
        Some l \<Rightarrow> l
      | None \<Rightarrow> c)"

definition toLowerCase :: "string \<Rightarrow> string" where
  "toLowerCase s = map lowerChar s"

fun includesStr :: "string \<Rightarrow> string \<Rightarrow> bool" where
  "includesStr [] needle = (needle = [])"
| "includesStr (c # cs) needle = (prefix needle (c # cs) \<or> includesStr cs needle)"

text \<open>
  An array is an object that variables hold by reference. The store holds the arrays of
  rating changes and of submissions, a reference being a position in it (a reference
  that a variable holds is always a position of the store), and the text of the
  elements of the page by their identifier. A filter takes the reference of its input
  and returns the reference of its result with the store after the call:
  \<^verbatim>\<open>Array.prototype.filter\<close> creates a new array, \<^verbatim>\<open>return ratingHistory\<close> returns the
  reference it was given. \<open>resultOf\<close> reads the array that a returned reference
  points to.
\<close>

record store =
  ratingArrays :: "ratingChange list list"
  submissionArrays :: "submission list list"
  textContent :: "string \<Rightarrow> string option"

definition newRatingArray :: "store \<Rightarrow> ratingChange list \<Rightarrow> nat \<times> store" where
  "newRatingArray st xs = (length (ratingArrays st), st\<lparr>ratingArrays := ratingArrays st @ [xs]\<rparr>)"

definition resultOf :: "nat \<times> store \<Rightarrow> ratingChange list" where
  "resultOf p = ratingArrays (snd p) ! fst p"

text \<open>
  \<^verbatim>\<open>filterRatingHistoryByTime\<close>. \<open>dateNow\<close> is the value of \<^verbatim>\<open>Date.now()\<close>, an integer
  number of milliseconds; \<^verbatim>\<open>now\<close> is a real number of seconds.
\<close>

definition filterRatingHistoryByTime :: "int \<Rightarrow> store \<Rightarrow> nat \<Rightarrow> string \<Rightarrow> nat \<times> store" where
  "filterRatingHistoryByTime dateNow st ratingHistory timeFrame =
     (let history = ratingArrays st ! ratingHistory in
      if length history = 0 \<or> timeFrame = ''All'' then (ratingHistory, st)
      else
        let now = real_of_int dateNow / 1000 in
        if timeFrame = ''1Y''
        then newRatingArray st
               (filter (\<lambda>contest. now - (365 * 24 * 60 * 60) \<le> real_of_int (ratingUpdateTimeSeconds contest))
                  history)
        else if timeFrame = ''6M''
        then newRatingArray st
               (filter (\<lambda>contest. now - (6 * 30 * 24 * 60 * 60) \<le> real_of_int (ratingUpdateTimeSeconds contest))
                  history)
        else (ratingHistory, st))"

text \<open>
  \<^verbatim>\<open>filterContestsByType\<close>; \<open>matchesType\<close> is the function it passes to
  \<^verbatim>\<open>filter\<close>, with its \<^verbatim>\<open>switch\<close> on the label.
\<close>

definition matchesType :: "string \<Rightarrow> ratingChange \<Rightarrow> bool" where
  "matchesType contestType contest =
     (let name = toLowerCase (contestName contest) in
      if contestType = ''Div. 1'' then includesStr name ''div. 1'' \<and> \<not> includesStr name ''div. 2''
      else if contestType = ''Div. 2'' then includesStr name ''div. 2''
      else if contestType = ''Div. 3'' then includesStr name ''div. 3''
      else if contestType = ''Educational'' then includesStr name ''educational''
      else True)"

definition filterContestsByType :: "store \<Rightarrow> nat \<Rightarrow> string \<Rightarrow> nat \<times> store" where
  "filterContestsByType st ratingHistory contestType =
     (let history = ratingArrays st ! ratingHistory in
      if length history = 0 \<or> contestType = ''All'' then (ratingHistory, st)
      else newRatingArray st (filter (matchesType contestType) history))"

section \<open>Comparison correlator\<close>

text \<open>
  A \<^verbatim>\<open>Set\<close> built from an array keeps the first occurrence of each element, in
  insertion order; \<^verbatim>\<open>has\<close> is membership and \<^verbatim>\<open>size\<close> the length. \<open>commonProblems\<close>
  and \<open>commonContests\<close> are the two sets that \<^verbatim>\<open>updateComparisonUI\<close> builds.
\<close>

definition newSet :: "'a list \<Rightarrow> 'a list" where
  "newSet xs = foldl (\<lambda>s x. if x \<in> set s then s else s @ [x]) [] xs"

definition commonProblems :: "submission list \<Rightarrow> submission list \<Rightarrow> string list" where
  "commonProblems user1Accepted user2Accepted =
     (let user1Problems = newSet (map (\<lambda>s. problemKey s) user1Accepted);
          user2Problems = newSet (map (\<lambda>s. problemKey s) user2Accepted)
      in newSet (filter (\<lambda>p. p \<in> set user2Problems) user1Problems))"

definition commonContests :: "ratingChange list \<Rightarrow> ratingChange list \<Rightarrow> int list" where
  "commonContests user1Rating user2Rating =
     (let user1Contests = newSet (map (\<lambda>c. contestIdRC c) user1Rating);
          user2Contests = newSet (map (\<lambda>c. contestIdRC c) user2Rating)
      in newSet (filter (\<lambda>c. c \<in> set user2Contests) user1Contests))"

text \<open>
  \<^verbatim>\<open>updateComparisonUI\<close> on the store: it receives the references of the two rating
  histories and of the two normalized submission arrays, and writes the text of
  elements of the page. The writes of the two profiles (name, rank, rating, maximal
  rating) go to other elements and are left out.
\<close>

definition updateComparisonUI :: "store \<Rightarrow> nat \<Rightarrow> nat \<Rightarrow> nat \<Rightarrow> nat \<Rightarrow> store" where
  "updateComparisonUI st user1Rating user2Rating user1Accepted user2Accepted =
     (let rating1 = ratingArrays st ! user1Rating; rating2 = ratingArrays st ! user2Rating;
          accepted1 = submissionArrays st ! user1Accepted; accepted2 = submissionArrays st ! user2Accepted
      in st\<lparr>textContent := (textContent st)
           (''user1Solved'' \<mapsto> numberToString (int (length accepted1)),
            ''user1Contests'' \<mapsto> numberToString (int (length rating1)),
            ''user2Solved'' \<mapsto> numberToString (int (length accepted2)),
            ''user2Contests'' \<mapsto> numberToString (int (length rating2)),
            ''commonProblems'' \<mapsto> numberToString (int (length (commonProblems accepted1 accepted2))),
            ''commonContests'' \<mapsto> numberToString (int (length (commonContests rating1 rating2))))\<rparr>)"

section \<open>Single-user analysis and two-user comparison\<close>

text \<open>
  The three queries. The network is one reply function per endpoint, from the URL and
  the number of the attempt within one retry loop. \<^verbatim>\<open>users[0]\<close> of an empty array is
  \<^verbatim>\<open>undefined\<close>. Reading a property of \<^verbatim>\<open>undefined\<close> and destructuring it throw a
  \<^verbatim>\<open>TypeError\<close>, whose message is the one of V8 here; no property below depends on
  its text.
\<close>

definition API_BASE :: string where
  "API_BASE = ''https://codeforces.com/api/''"

record 'u api =
  userInfo :: "string \<Rightarrow> nat \<Rightarrow> 'u list reply"
  userRating :: "string \<Rightarrow> nat \<Rightarrow> ratingChange list reply"
  userStatus :: "string \<Rightarrow> nat \<Rightarrow> submission list reply"

definition typeErrorReading :: "string \<Rightarrow> jsError" where
  "typeErrorReading property =
     Error (''Cannot read properties of undefined (reading '' @ [CHR 0x27] @ property @ [CHR 0x27] @ '')'')"

definition typeErrorNotIterable :: jsError where
  "typeErrorNotIterable = Error ''undefined is not iterable''"

definition getUserInfo :: "'u api \<Rightarrow> string \<Rightarrow> 'u completion" where
  "getUserInfo net handle =
     (let url = API_BASE @ ''user.info?handles='' @ handle in
      case outcome (fetchWithRetry (userInfo net) url None) of
        Thrown error \<Rightarrow> Thrown error
      | ReturnedUndefined \<Rightarrow> Thrown (typeErrorReading ''0'')
      | Returned users \<Rightarrow> (case users of [] \<Rightarrow> ReturnedUndefined | user # others \<Rightarrow> Returned user))"

definition getUserRating :: "'u api \<Rightarrow> string \<Rightarrow> ratingChange list completion" where
  "getUserRating net handle =
     (let url = API_BASE @ ''user.rating?handle='' @ handle in
      outcome (fetchWithRetry (userRating net) url None))"

definition getUserSubmissions :: "'u api \<Rightarrow> string \<Rightarrow> submission list completion" where
  "getUserSubmissions net handle =
     (let url = API_BASE @ ''user.status?handle='' @ handle @ ''&from=1&count=10000'' in
      outcome (fetchWithRetry (userStatus net) url None))"

text \<open>
  \<^verbatim>\<open>promise.catch(() => [])\<close> turns a rejection into the empty array.
  \<^verbatim>\<open>Promise.all\<close> rejects with the reason of the promise that rejects first and
  resolves to the values otherwise (\<open>None\<close> for \<^verbatim>\<open>undefined\<close>). Which promise settles
  first depends on the timing of the network: \<open>order\<close> lists the promises by their
  position in the order in which they settle (one not listed settles after the listed
  ones, by position).
\<close>

definition catchEmpty :: "'a list completion \<Rightarrow> 'a list completion" where
  "catchEmpty p = (case p of Thrown error \<Rightarrow> Returned [] | _ \<Rightarrow> p)"

definition rejection :: "'a completion \<Rightarrow> jsError option" where
  "rejection p = (case p of Thrown error \<Rightarrow> Some error | _ \<Rightarrow> None)"

definition resolved :: "'a completion \<Rightarrow> 'a option" where
  "resolved p = (case p of Returned v \<Rightarrow> Some v | _ \<Rightarrow> None)"

definition firstRejection :: "nat list \<Rightarrow> jsError option list \<Rightarrow> jsError option" where
  "firstRejection order rs =
     (case filter (\<lambda>i. i < length rs \<and> rs ! i \<noteq> None) (order @ [0..<length rs]) of
        [] \<Rightarrow> None
      | i # others \<Rightarrow> rs ! i)"

definition promiseAll3 ::
  "nat list \<Rightarrow> 'a completion \<Rightarrow> 'b completion \<Rightarrow> 'c completion
     \<Rightarrow> ('a option \<times> 'b option \<times> 'c option) completion" where
  "promiseAll3 order p0 p1 p2 =
     (case firstRejection order [rejection p0, rejection p1, rejection p2] of
        Some error \<Rightarrow> Thrown error
      | None \<Rightarrow> Returned (resolved p0, resolved p1, resolved p2))"

definition promiseAll2 ::
  "nat list \<Rightarrow> 'a completion \<Rightarrow> 'b completion \<Rightarrow> ('a option \<times> 'b option) completion" where
  "promiseAll2 order p0 p1 =
     (case firstRejection order [rejection p0, rejection p1] of
        Some error \<Rightarrow> Thrown error
      | None \<Rightarrow> Returned (resolved p0, resolved p1))"

text \<open>\<^verbatim>\<open>String.prototype.trim\<close>, for the white space of ASCII.\<close>

definition isSpace :: "char \<Rightarrow> bool" where
  "isSpace c = (c \<in> set [CHR 0x09, CHR 0x0A, CHR 0x0B, CHR 0x0C, CHR 0x0D, CHR 0x20])"

definition trim :: "string \<Rightarrow> string" where
  "trim s = rev (dropWhile isSpace (rev (dropWhile isSpace s)))"

text \<open>
  What a query leaves on the page: the message of \<^verbatim>\<open>showError\<close>, or the data that
  the sections shown are rendered from. For \<^verbatim>\<open>analyzeUser\<close> these are the three session
  variables and the statistics computed from them; for \<^verbatim>\<open>compareUsers\<close> the six
  arguments of \<^verbatim>\<open>updateComparisonUI\<close>. The rendering itself (the page and the charts)
  is outside the model and taken not to throw.
\<close>

record 'u analysis =
  currentUser :: 'u
  currentUserRatingHistory :: "ratingChange list"
  currentUserSubmissions :: "submission list"
  shownSolved :: "submission list"
  shownProblemStats :: problemStats
  shownContestStats :: contestStats

record 'u comparison =
  user1 :: 'u
  user2 :: 'u
  user1Rating :: "ratingChange list"
  user2Rating :: "ratingChange list"
  user1Accepted :: "submission list"
  user2Accepted :: "submission list"

datatype ('u, 'v) view = ErrorShown string | Shown 'v

text \<open>
  \<^verbatim>\<open>analyzeUser\<close> and \<^verbatim>\<open>compareUsers\<close>: the check of the handles, the queries awaited
  together, and the \<^verbatim>\<open>try\<close> block, whose \<^verbatim>\<open>catch\<close> shows the message of whatever
  is thrown. After the queries the first statement that reads an \<^verbatim>\<open>undefined\<close> value
  throws: \<^verbatim>\<open>processSubmissions\<close> reads \<^verbatim>\<open>filter\<close>, \<^verbatim>\<open>calculateContestStats\<close> and
  \<^verbatim>\<open>updateComparisonUI\<close> read \<^verbatim>\<open>length\<close>, \<^verbatim>\<open>updateProfile\<close> reads
  \<^verbatim>\<open>firstName\<close> and \<^verbatim>\<open>updateComparisonUI\<close> reads \<^verbatim>\<open>handle\<close>.
\<close>

definition analyzeUser :: "'u api \<Rightarrow> nat list \<Rightarrow> string \<Rightarrow> ('u, 'u analysis) view" where
  "analyzeUser net order handle =
     (if handle = [] \<or> trim handle = [] then ErrorShown ''Please enter a valid handle''
      else
        case promiseAll3 order
               (getUserInfo net handle)
               (catchEmpty (getUserRating net handle))
               (getUserSubmissions net handle) of
          Thrown error \<Rightarrow> ErrorShown (''Error: '' @ message error)
        | ReturnedUndefined \<Rightarrow> ErrorShown (''Error: '' @ message typeErrorNotIterable)
        | Returned (user, ratingHistory, submissions) \<Rightarrow>
            (case submissions of
               None \<Rightarrow> ErrorShown (''Error: '' @ message (typeErrorReading ''filter''))
             | Some subs \<Rightarrow>
                 (case ratingHistory of
                    None \<Rightarrow> ErrorShown (''Error: '' @ message (typeErrorReading ''length''))
                  | Some history \<Rightarrow>
                      (case user of
                         None \<Rightarrow> ErrorShown (''Error: '' @ message (typeErrorReading ''firstName''))
                       | Some u \<Rightarrow>
                           Shown \<lparr>currentUser = u,
                                  currentUserRatingHistory = history,
                                  currentUserSubmissions = subs,
                                  shownSolved = processSubmissions subs,
                                  shownProblemStats = calculateProblemStats (processSubmissions subs),
                                  shownContestStats = calculateContestStats history\<rparr>))))"

definition compareUsers ::
  "'u api \<Rightarrow> 'u api \<Rightarrow> nat list \<Rightarrow> nat list \<Rightarrow> nat list \<Rightarrow> string \<Rightarrow> string
     \<Rightarrow> ('u, 'u comparison) view" where
  "compareUsers net1 net2 order1 order2 order handle1 handle2 =
     (if handle1 = [] \<or> handle2 = [] \<or> trim handle1 = [] \<or> trim handle2 = []
      then ErrorShown ''Please enter both handles for comparison''
      else
        case promiseAll2 order
               (promiseAll3 order1
                  (getUserInfo net1 handle1)
                  (catchEmpty (getUserRating net1 handle1))
                  (getUserSubmissions net1 handle1))
               (promiseAll3 order2
                  (getUserInfo net2 handle2)
                  (catchEmpty (getUserRating net2 handle2))
                  (getUserSubmissions net2 handle2)) of
          Thrown error \<Rightarrow> ErrorShown (''Error: '' @ message error)
        | ReturnedUndefined \<Rightarrow> ErrorShown (''Error: '' @ message typeErrorNotIterable)
        | Returned (user1Data, user2Data) \<Rightarrow>
            (case (user1Data, user2Data) of
               (Some (u1, r1, s1), Some (u2, r2, s2)) \<Rightarrow>
                 (case (s1, s2) of
                    (Some subs1, Some subs2) \<Rightarrow>
                      (case (u1, r1, u2, r2) of
                         (Some a, Some h1, Some b, Some h2) \<Rightarrow>
                           Shown \<lparr>user1 = a, user2 = b, user1Rating = h1, user2Rating = h2,
                                  user1Accepted = processSubmissions subs1,
                                  user2Accepted = processSubmissions subs2\<rparr>
                       | (None, _, _, _) \<Rightarrow> ErrorShown (''Error: '' @ message (typeErrorReading ''handle''))
                       | (Some a, None, _, _) \<Rightarrow> ErrorShown (''Error: '' @ message (typeErrorReading ''length''))
                       | (Some a, Some h1, None, _) \<Rightarrow> ErrorShown (''Error: '' @ message (typeErrorReading ''handle''))
                       | (Some a, Some h1, Some b, None) \<Rightarrow> ErrorShown (''Error: '' @ message (typeErrorReading ''length'')))
                  | _ \<Rightarrow> ErrorShown (''Error: '' @ message (typeErrorReading ''filter'')))
             | _ \<Rightarrow> ErrorShown (''Error: '' @ message typeErrorNotIterable)))"

section \<open>Example inputs\<close>

text \<open>
  The submissions of the end-to-end example of the specification: problem 1A accepted
  twice, problem 1B rejected, problem 2A accepted with a rating and two tags.
\<close>

definition sub1A :: submission where
  "sub1A = \<lparr>verdict = ''OK'', problem = \<lparr>contestId = Some 1, index = ''A'', rating = None, tags = [''dp'']\<rparr>\<rparr>"

definition sub1B :: submission where
  "sub1B = \<lparr>verdict = ''WRONG_ANSWER'', problem = \<lparr>contestId = Some 1, index = ''B'', rating = None, tags = []\<rparr>\<rparr>"

definition sub2A :: submission where
  "sub2A = \<lparr>verdict = ''OK'', problem = \<lparr>contestId = Some 2, index = ''A'', rating = Some 1200, tags = [''dp'', ''greedy'']\<rparr>\<rparr>"

definition exampleSubmissions :: "submission list" where
  "exampleSubmissions = [sub1A, sub1A, sub1B, sub2A]"

text \<open>
  Two services: one that fails twice (a transport error, then an HTTP error) and then
  answers, and one that fails twice and then reports a service error with a comment.
\<close>

definition flakyService :: "string \<Rightarrow> nat \<Rightarrow> submission list reply" where
  "flakyService url i =
     (if i = 0 then Rejected ''Failed to fetch''
      else if i = 1 then Response False 503 (Unparsable [])
      else Response True 200 (Json ''OK'' None exampleSubmissions))"

definition failingService :: "string \<Rightarrow> nat \<Rightarrow> submission list reply" where
  "failingService url i =
     (if i < 2 then Rejected ''Failed to fetch''
      else Response True 200 (Json ''FAILED'' (Some ''handle: User with handle nobody not found'') []))"

text \<open>
  The em dash (U+2014) as its three bytes in UTF-8, and a rating history of two contests.
\<close>

definition emDash :: string where
  "emDash = [CHR 0xE2, CHR 0x80, CHR 0x94]"

definition exampleHistory :: "ratingChange list" where
  "exampleHistory =
     [\<lparr>contestIdRC = 1500, contestName = ''Codeforces Round 700 (Div. 2)'', rank = 1200,
        oldRating = 0, newRating = 1400, ratingUpdateTimeSeconds = 1600000000\<rparr>,
      \<lparr>contestIdRC = 1510, contestName = ''Codeforces Round 705 (Div. 1 + Div. 2)'', rank = 300,
        oldRating = 1400, newRating = 1601, ratingUpdateTimeSeconds = 1700000000\<rparr>]"

text \<open>
  An accepted submission whose rating is 0, one whose rating is 50, one with the tag \<^verbatim>\<open>constructor\<close>, and one
  whose index and tag are \<^verbatim>\<open>__proto__\<close>.
\<close>

definition subRatedZero :: submission where
  "subRatedZero = \<lparr>verdict = ''OK'', problem = \<lparr>contestId = Some 9, index = ''A'', rating = Some 0, tags = []\<rparr>\<rparr>"

definition subRatedFifty :: submission where
  "subRatedFifty = \<lparr>verdict = ''OK'', problem = \<lparr>contestId = Some 9, index = ''C'', rating = Some 50, tags = []\<rparr>\<rparr>"

definition subConstructor :: submission where
  "subConstructor = \<lparr>verdict = ''OK'', problem = \<lparr>contestId = Some 9, index = ''B'', rating = None, tags = [''constructor'']\<rparr>\<rparr>"

definition subProto :: submission where
  "subProto = \<lparr>verdict = ''OK'', problem = \<lparr>contestId = Some 9, index = ''__proto__'', rating = None, tags = [''__proto__'']\<rparr>\<rparr>"

text \<open>
  Four contests (of division 2, of both divisions, educational, of division 1) and a
  store that holds them.
\<close>

definition contestDiv2 :: ratingChange where
  "contestDiv2 = \<lparr>contestIdRC = 1500, contestName = ''Codeforces Round 700 (Div. 2)'', rank = 1200,
        oldRating = 0, newRating = 1400, ratingUpdateTimeSeconds = 1600000000\<rparr>"

definition contestCombined :: ratingChange where
  "contestCombined = \<lparr>contestIdRC = 1510, contestName = ''Codeforces Round 705 (Div. 1 + Div. 2)'', rank = 300,
        oldRating = 1400, newRating = 1601, ratingUpdateTimeSeconds = 1700000000\<rparr>"

definition contestEducational :: ratingChange where
  "contestEducational = \<lparr>contestIdRC = 1520, contestName = ''Educational Codeforces Round 100'', rank = 50,
        oldRating = 1601, newRating = 1800, ratingUpdateTimeSeconds = 1710000000\<rparr>"

definition contestDiv1 :: ratingChange where
  "contestDiv1 = \<lparr>contestIdRC = 1530, contestName = ''Codeforces Round 710 (DIV. 1)'', rank = 700,
        oldRating = 1800, newRating = 1750, ratingUpdateTimeSeconds = 1720000000\<rparr>"

definition exampleContests :: "ratingChange list" where
  "exampleContests = [contestDiv2, contestCombined, contestEducational, contestDiv1]"

definition exampleStore :: store where
  "exampleStore = \<lparr>ratingArrays = [exampleContests], submissionArrays = [exampleSubmissions],
     textContent = Map.empty\<rparr>"

text \<open>
  A service whose rating endpoint always reports an error, and one whose submission
  endpoint fails as well.
\<close>

definition unratedService :: "string api" where
  "unratedService =
     \<lparr>userInfo = (\<lambda>url i. Response True 200 (Json ''OK'' None [''tourist''])),
      userRating = (\<lambda>url i. Response True 200 (Json ''FAILED'' (Some ''handle: rating unavailable'') [])),
      userStatus = (\<lambda>url i. Response True 200 (Json ''OK'' None exampleSubmissions))\<rparr>"

definition downService :: "string api" where
  "downService = unratedService\<lparr>userStatus := failingService\<rparr>"

section \<open>Decimal numerals are injective\<close>

lemma digitChar_in: "d < 10 \<Longrightarrow> digitChar d \<in> set ''0123456789''"
  unfolding digitChar_def by (rule nth_mem) simp

lemma digitChar_inj: "a < 10 \<Longrightarrow> b < 10 \<Longrightarrow> digitChar a = digitChar b \<Longrightarrow> a = b"
proof -
  assume a: "a < 10" and b: "b < 10" and e: "digitChar a = digitChar b"
  have d: "distinct ''0123456789''" by simp
  have "''0123456789'' ! a = ''0123456789'' ! b" using e by (simp add: digitChar_def)
  moreover have "a < length ''0123456789''" "b < length ''0123456789''" using a b by simp_all
  ultimately show "a = b" using d nth_eq_iff_index_eq by blast
qed

lemma digits_set: "set (digits n) \<subseteq> set ''0123456789''"
proof (induction n rule: digits.induct)
  case (1 n)
  show ?case
  proof (cases "n < 10")
    case True
    then show ?thesis using digitChar_in[of n] by (subst digits.simps) simp
  next
    case False
    have "n mod 10 < 10" by simp
    then have "digitChar (n mod 10) \<in> set ''0123456789''" by (rule digitChar_in)
    then show ?thesis using False 1 by (subst digits.simps) simp
  qed
qed

lemma digits_nonempty: "digits n \<noteq> []"
  by (subst digits.simps) simp

lemma digits_inj: "digits a = digits b \<Longrightarrow> a = b"
proof (induction a arbitrary: b rule: digits.induct)
  case (1 n)
  show ?case
  proof (cases "n < 10")
    case True
    note n = this
    show ?thesis
    proof (cases "b < 10")
      case True
      with n 1(2) show ?thesis
        by (simp add: digits.simps[of n] digits.simps[of b] digitChar_inj)
    next
      case False
      with n 1(2) have "[digitChar n] = digits (b div 10) @ [digitChar (b mod 10)]"
        by (simp add: digits.simps[of n] digits.simps[of b])
      then have "digits (b div 10) = []" by simp
      then show ?thesis using digits_nonempty by blast
    qed
  next
    case False
    note n = this
    show ?thesis
    proof (cases "b < 10")
      case True
      with n 1(2) have "digits (n div 10) @ [digitChar (n mod 10)] = [digitChar b]"
        by (simp add: digits.simps[of n] digits.simps[of b])
      then have "digits (n div 10) = []" by simp
      then show ?thesis using digits_nonempty by blast
    next
      case False
      with n 1(2) have e: "digits (n div 10) @ [digitChar (n mod 10)] = digits (b div 10) @ [digitChar (b mod 10)]"
        by (simp add: digits.simps[of n] digits.simps[of b])
      then have "digits (n div 10) = digits (b div 10)" by simp
      then have q: "n div 10 = b div 10" using 1(1)[OF n] by blast
      from e have "digitChar (n mod 10) = digitChar (b mod 10)" by simp
      then have r: "n mod 10 = b mod 10" by (intro digitChar_inj) simp_all
      from q r show ?thesis by (metis div_mult_mod_eq)
    qed
  qed
qed

section \<open>The key string identifies the problem\<close>

lemma split_at_first:
  assumes "c \<notin> set u" "c \<notin> set v" "u @ c # x = v @ c # y"
  shows "u = v \<and> x = y"
proof -
  have "takeWhile (\<lambda>z. z \<noteq> c) (u @ c # x) = u" using assms(1) by (induction u) auto
  moreover have "takeWhile (\<lambda>z. z \<noteq> c) (v @ c # y) = v" using assms(2) by (induction v) auto
  ultimately have "u = v" using assms(3) by simp
  then show ?thesis using assms(3) by simp
qed

lemma minus_notin_digits: "CHR ''-'' \<notin> set (digits n)"
  using digits_set[of n] by auto

lemma digits_hd: "\<exists>c cs. digits n = c # cs \<and> c \<in> set ''0123456789''"
proof (cases "digits n")
  case Nil
  then show ?thesis using digits_nonempty by blast
next
  case (Cons c cs)
  then have "c \<in> set (digits n)" by simp
  then show ?thesis using digits_set[of n] Cons by blast
qed

lemma numberToString_key_inj:
  assumes "numberToString n @ CHR ''-'' # i = numberToString m @ CHR ''-'' # j"
  shows "n = m \<and> i = j"
proof -
  obtain c cs where c: "digits (nat n) = c # cs" "c \<in> set ''0123456789''" using digits_hd by blast
  obtain d ds where d: "digits (nat m) = d # ds" "d \<in> set ''0123456789''" using digits_hd by blast
  consider "n < 0" "m < 0" | "n < 0" "\<not> m < 0" | "\<not> n < 0" "m < 0" | "\<not> n < 0" "\<not> m < 0" by blast
  then show ?thesis
  proof cases
    case 1
    with assms have "digits (nat (- n)) @ CHR ''-'' # i = digits (nat (- m)) @ CHR ''-'' # j"
      by (simp add: numberToString_def)
    then have "digits (nat (- n)) = digits (nat (- m)) \<and> i = j"
      by (rule split_at_first[OF minus_notin_digits minus_notin_digits])
    then have "nat (- n) = nat (- m)" "i = j" using digits_inj by blast+
    then show ?thesis using 1 by simp
  next
    case 2
    with assms d show ?thesis by (auto simp: numberToString_def)
  next
    case 3
    with assms c show ?thesis by (auto simp: numberToString_def)
  next
    case 4
    with assms have "digits (nat n) @ CHR ''-'' # i = digits (nat m) @ CHR ''-'' # j"
      by (simp add: numberToString_def)
    then have "digits (nat n) = digits (nat m) \<and> i = j"
      by (rule split_at_first[OF minus_notin_digits minus_notin_digits])
    then have "nat n = nat m" "i = j" using digits_inj by blast+
    then show ?thesis using 4 by simp
  qed
qed

lemma numberToString_hd: "\<exists>c cs. numberToString n = c # cs \<and> c \<in> set ''-0123456789''"
proof (cases "n < 0")
  case True
  then show ?thesis by (simp add: numberToString_def)
next
  case False
  then show ?thesis using digits_hd[of "nat n"] by (auto simp: numberToString_def)
qed

lemma problemKey_eq_iff: "problemKey a = problemKey b \<longleftrightarrow> specKey a = specKey b"
proof
  assume "specKey a = specKey b"
  then show "problemKey a = problemKey b" by (simp add: specKey_def problemKey_def)
next
  assume e: "problemKey a = problemKey b"
  show "specKey a = specKey b"
  proof (cases "contestId (problem a)")
    case None
    note na = this
    show ?thesis
    proof (cases "contestId (problem b)")
      case None
      with na e show ?thesis by (simp add: specKey_def problemKey_def)
    next
      case (Some m)
      obtain c cs where "numberToString m = c # cs" "c \<in> set ''-0123456789''"
        using numberToString_hd by blast
      with na Some e show ?thesis by (auto simp: problemKey_def)
    qed
  next
    case (Some n)
    note sa = this
    show ?thesis
    proof (cases "contestId (problem b)")
      case None
      obtain c cs where "numberToString n = c # cs" "c \<in> set ''-0123456789''"
        using numberToString_hd by blast
      with sa None e show ?thesis by (auto simp: problemKey_def)
    next
      case (Some m)
      with sa e have "numberToString n @ CHR ''-'' # index (problem a)
                    = numberToString m @ CHR ''-'' # index (problem b)"
        by (simp add: problemKey_def)
      then have "n = m \<and> index (problem a) = index (problem b)" by (rule numberToString_key_inj)
      with sa Some show ?thesis by (simp add: specKey_def)
    qed
  qed
qed

section \<open>Properties of the submission normalizer\<close>

lemma map_set_absent: "\<not> map_has m k \<Longrightarrow> map_set m k v = m @ [(k, v)]"
  by (induction m) (auto simp: map_has_def split: if_splits)

lemma map_has_iff: "map_has m k \<longleftrightarrow> k \<in> fst ` set m"
  by (simp add: map_has_def map_of_eq_None_iff)

lemma addUnique_keys:
  "(k, s) \<in> set (foldl addUnique m ys) \<Longrightarrow> (k, s) \<in> set m \<or> k = problemKey s"
proof (induction ys arbitrary: k s rule: rev_induct)
  case Nil
  then show ?case by simp
next
  case (snoc y ys)
  then show ?case
    by (auto simp: addUnique_def map_set_absent split: if_splits)
qed

lemma unique_has_iff:
  "map_has (foldl addUnique [] ys) (problemKey x)
     \<longleftrightarrow> specKey x \<in> specKey ` set (map_values (foldl addUnique [] ys))"
proof -
  have k: "\<And>k s. (k, s) \<in> set (foldl addUnique [] ys) \<Longrightarrow> k = problemKey s"
    using addUnique_keys[of _ _ "[]" ys] by simp
  show ?thesis
  proof
    assume "map_has (foldl addUnique [] ys) (problemKey x)"
    then obtain s where s: "(problemKey x, s) \<in> set (foldl addUnique [] ys)"
      by (auto simp: map_has_iff)
    then have "problemKey x = problemKey s" using k by blast
    then have "specKey x = specKey s" by (simp add: problemKey_eq_iff)
    moreover have "s \<in> set (map_values (foldl addUnique [] ys))"
      using s by (force simp: map_values_def)
    ultimately show "specKey x \<in> specKey ` set (map_values (foldl addUnique [] ys))" by blast
  next
    assume "specKey x \<in> specKey ` set (map_values (foldl addUnique [] ys))"
    then obtain k s where s: "(k, s) \<in> set (foldl addUnique [] ys)" "specKey x = specKey s"
      by (auto simp: map_values_def)
    then have "k = problemKey x" using k[OF s(1)] by (simp add: problemKey_eq_iff)
    with s(1) show "map_has (foldl addUnique [] ys) (problemKey x)"
      by (force simp: map_has_iff)
  qed
qed

lemma processSubmissions_Nil: "processSubmissions [] = []"
  by (simp add: processSubmissions_def map_values_def)

lemma processSubmissions_snoc:
  "processSubmissions (xs @ [x]) =
     (if verdict x = ''OK'' \<and> specKey x \<notin> specKey ` set (processSubmissions xs)
      then processSubmissions xs @ [x] else processSubmissions xs)"
proof (cases "verdict x = ''OK''")
  case False
  then show ?thesis by (simp add: processSubmissions_def)
next
  case True
  let ?U = "foldl addUnique [] (filter (\<lambda>sub. verdict sub = ''OK'') xs)"
  have p: "processSubmissions xs = map_values ?U" by (simp add: processSubmissions_def)
  have q: "processSubmissions (xs @ [x]) = map_values (addUnique ?U x)"
    using True by (simp add: processSubmissions_def)
  show ?thesis
  proof (cases "map_has ?U (problemKey x)")
    case True
    then have "specKey x \<in> specKey ` set (processSubmissions xs)"
      unfolding p by (simp add: unique_has_iff)
    moreover have "addUnique ?U x = ?U" using True by (simp add: addUnique_def)
    ultimately show ?thesis using p q by simp
  next
    case False
    then have "specKey x \<notin> specKey ` set (processSubmissions xs)"
      unfolding p by (simp add: unique_has_iff)
    moreover have "addUnique ?U x = ?U @ [(problemKey x, x)]"
      using False by (simp add: addUnique_def map_set_absent)
    ultimately show ?thesis using p q \<open>verdict x = ''OK''\<close> by (simp add: map_values_def)
  qed
qed

lemma processSubmissions_accepted:
  "set (processSubmissions xs) \<subseteq> {s \<in> set xs. verdict s = ''OK''}"
  by (induction xs rule: rev_induct) (auto simp: processSubmissions_Nil processSubmissions_snoc)

lemma processSubmissions_keys:
  "specKey ` set (processSubmissions xs) = specKey ` {s \<in> set xs. verdict s = ''OK''}"
proof (induction xs rule: rev_induct)
  case Nil
  then show ?case by (simp add: processSubmissions_Nil)
next
  case (snoc x xs)
  have "{s \<in> set (xs @ [x]). verdict s = ''OK''}
        = {s \<in> set xs. verdict s = ''OK''} \<union> (if verdict x = ''OK'' then {x} else {})"
    by auto
  then show ?case using snoc by (auto simp: processSubmissions_snoc)
qed

lemma takeWhile_stops_short: "x \<in> set xs \<Longrightarrow> \<not> P x \<Longrightarrow> length (takeWhile P xs) < length xs"
  by (induction xs) auto

lemma firstAccepted_snoc_old:
  assumes "s \<in> set xs" "verdict s = ''OK''"
  shows "firstAccepted (xs @ [x]) (specKey s) = firstAccepted xs (specKey s)"
    and "firstAccepted xs (specKey s) < length xs"
proof -
  let ?P = "\<lambda>t. \<not> (verdict t = ''OK'' \<and> specKey t = specKey s)"
  have n: "\<not> ?P s" using assms(2) by simp
  have "takeWhile ?P (xs @ [x]) = takeWhile ?P xs"
    using assms(1) n by (rule takeWhile_append1)
  then show "firstAccepted (xs @ [x]) (specKey s) = firstAccepted xs (specKey s)"
    unfolding firstAccepted_def by (rule arg_cong)
  show "firstAccepted xs (specKey s) < length xs"
    unfolding firstAccepted_def using assms(1) n by (rule takeWhile_stops_short)
qed

lemma fresh_key:
  assumes "specKey x \<notin> specKey ` {s \<in> set xs. verdict s = ''OK''}" "t \<in> set xs"
  shows "\<not> (verdict t = ''OK'' \<and> specKey t = specKey x)"
proof
  assume "verdict t = ''OK'' \<and> specKey t = specKey x"
  then have "t \<in> {s \<in> set xs. verdict s = ''OK''}" "specKey x = specKey t" using assms(2) by simp_all
  then have "specKey x \<in> specKey ` {s \<in> set xs. verdict s = ''OK''}" by (rule_tac image_eqI)
  then show False using assms(1) by contradiction
qed

lemma firstAccepted_snoc_new:
  assumes "specKey x \<notin> specKey ` {s \<in> set xs. verdict s = ''OK''}"
  shows "firstAccepted (xs @ [x]) (specKey x) \<ge> length xs"
proof -
  let ?P = "\<lambda>t. \<not> (verdict t = ''OK'' \<and> specKey t = specKey x)"
  have "\<And>t. t \<in> set xs \<Longrightarrow> ?P t" using assms by (rule fresh_key)
  then have "takeWhile ?P (xs @ [x]) = xs @ takeWhile ?P [x]" by (rule takeWhile_append2)
  then have "length (takeWhile ?P (xs @ [x])) \<ge> length xs" by simp
  then show ?thesis unfolding firstAccepted_def .
qed

lemma find_snoc:
  "find P (xs @ [x]) = (case find P xs of Some y \<Rightarrow> Some y | None \<Rightarrow> if P x then Some x else None)"
  by (induction xs) auto

lemma processSubmissions_first:
  "s \<in> set (processSubmissions xs) \<Longrightarrow>
     find (\<lambda>t. verdict t = ''OK'' \<and> specKey t = specKey s) xs = Some s"
proof (induction xs rule: rev_induct)
  case Nil
  then show ?case by (simp add: processSubmissions_Nil)
next
  case (snoc x xs)
  show ?case
  proof (cases "s \<in> set (processSubmissions xs)")
    case True
    then show ?thesis using snoc.IH by (simp add: find_snoc)
  next
    case False
    with snoc.prems have x: "s = x" "verdict x = ''OK''"
      "specKey x \<notin> specKey ` set (processSubmissions xs)"
      by (auto simp: processSubmissions_snoc split: if_splits)
    then have "specKey x \<notin> specKey ` {s \<in> set xs. verdict s = ''OK''}"
      by (simp add: processSubmissions_keys)
    then have "\<And>t. t \<in> set xs \<Longrightarrow> \<not> (verdict t = ''OK'' \<and> specKey t = specKey x)"
      by (rule fresh_key)
    then have "find (\<lambda>t. verdict t = ''OK'' \<and> specKey t = specKey x) xs = None"
      unfolding find_None_iff by blast
    then show ?thesis using x by (simp add: find_snoc)
  qed
qed

lemma processSubmissions_order:
  "sorted_wrt (<) (map (\<lambda>s. firstAccepted xs (specKey s)) (processSubmissions xs))"
proof (induction xs rule: rev_induct)
  case Nil
  then show ?case by (simp add: processSubmissions_Nil)
next
  case (snoc x xs)
  have old: "map (\<lambda>s. firstAccepted (xs @ [x]) (specKey s)) (processSubmissions xs)
           = map (\<lambda>s. firstAccepted xs (specKey s)) (processSubmissions xs)"
    using processSubmissions_accepted[of xs] by (intro map_cong refl firstAccepted_snoc_old(1)) auto
  have lt: "\<forall>n \<in> set (map (\<lambda>s. firstAccepted xs (specKey s)) (processSubmissions xs)). n < length xs"
    using processSubmissions_accepted[of xs] firstAccepted_snoc_old(2)[of _ xs] by auto
  show ?case
  proof (cases "verdict x = ''OK'' \<and> specKey x \<notin> specKey ` set (processSubmissions xs)")
    case False
    then have "processSubmissions (xs @ [x]) = processSubmissions xs"
      by (simp add: processSubmissions_snoc)
    then show ?thesis using snoc.IH by (simp only: old)
  next
    case True
    then have p: "processSubmissions (xs @ [x]) = processSubmissions xs @ [x]"
      by (simp add: processSubmissions_snoc)
    from True have "specKey x \<notin> specKey ` {s \<in> set xs. verdict s = ''OK''}"
      by (simp add: processSubmissions_keys)
    then have "length xs \<le> firstAccepted (xs @ [x]) (specKey x)" by (rule firstAccepted_snoc_new)
    with lt have "\<forall>n \<in> set (map (\<lambda>s. firstAccepted xs (specKey s)) (processSubmissions xs)).
                    n < firstAccepted (xs @ [x]) (specKey x)" by fastforce
    then show ?thesis using snoc.IH unfolding p by (simp only: map_append sorted_wrt_append old) simp
  qed
qed

lemma processSubmissions_distinct: "distinct (map specKey (processSubmissions xs))"
  by (induction xs rule: rev_induct) (auto simp: processSubmissions_Nil processSubmissions_snoc)

lemma example_run: "processSubmissions exampleSubmissions = [sub1A, sub2A]"
  by (simp add: processSubmissions_def exampleSubmissions_def sub1A_def sub1B_def sub2A_def
      addUnique_def map_has_def map_values_def problemKey_def numberToString_def digits.simps digitChar_def)

text \<open>
  Claim C1. For every raw submission sequence, \<open>processSubmissions\<close> returns only
  accepted submissions (verdict \<^verbatim>\<open>OK\<close>) of the input, one for every ProblemKey that
  an accepted submission has and at most one per ProblemKey; the key string the code
  builds is equal for two submissions exactly when their contest identifiers and their
  indices are equal; the submission retained for a key is the first accepted
  occurrence of that key in input order; the output is ordered by the position of
  that first occurrence; and the empty input yields the empty output.
\<close>

theorem processSubmissions_normalizes:
  "processSubmissions [] = []
   \<and> (problemKey a = problemKey b \<longleftrightarrow>
        contestId (problem a) = contestId (problem b) \<and> index (problem a) = index (problem b))
   \<and> set (processSubmissions xs) \<subseteq> {s \<in> set xs. verdict s = ''OK''}
   \<and> (\<forall>s \<in> set xs. verdict s = ''OK'' \<longrightarrow> specKey s \<in> specKey ` set (processSubmissions xs))
   \<and> distinct (map specKey (processSubmissions xs))
   \<and> (\<forall>s \<in> set (processSubmissions xs).
         find (\<lambda>t. verdict t = ''OK'' \<and> specKey t = specKey s) xs = Some s)
   \<and> sorted_wrt (<) (map (\<lambda>s. firstAccepted xs (specKey s)) (processSubmissions xs))"
proof -
  have "problemKey a = problemKey b \<longleftrightarrow>
        contestId (problem a) = contestId (problem b) \<and> index (problem a) = index (problem b)"
    by (simp add: problemKey_eq_iff specKey_def)
  moreover have "\<forall>s \<in> set xs. verdict s = ''OK'' \<longrightarrow> specKey s \<in> specKey ` set (processSubmissions xs)"
    by (simp add: processSubmissions_keys)
  moreover have "\<forall>s \<in> set (processSubmissions xs).
         find (\<lambda>t. verdict t = ''OK'' \<and> specKey t = specKey s) xs = Some s"
    using processSubmissions_first by blast
  ultimately show ?thesis
    using processSubmissions_Nil processSubmissions_accepted processSubmissions_distinct
      processSubmissions_order by blast
qed

theorem processSubmissions_normalizes_witness:
  "processSubmissions exampleSubmissions = [sub1A, sub2A]
   \<and> problemKey sub1A \<noteq> problemKey sub2A
   \<and> sub2A \<in> set exampleSubmissions \<and> verdict sub2A = ''OK''
   \<and> sub2A \<in> set (processSubmissions exampleSubmissions)
   \<and> distinct (map specKey (processSubmissions exampleSubmissions))
   \<and> find (\<lambda>t. verdict t = ''OK'' \<and> specKey t = specKey sub2A) exampleSubmissions = Some sub2A
   \<and> firstAccepted exampleSubmissions (specKey sub1A) < firstAccepted exampleSubmissions (specKey sub2A)"
proof -
  have r: "processSubmissions exampleSubmissions = [sub1A, sub2A]" by (rule example_run)
  have m: "sub2A \<in> set exampleSubmissions" "verdict sub2A = ''OK''"
    by (simp_all add: exampleSubmissions_def sub2A_def)
  have d: "contestId (problem sub1A) \<noteq> contestId (problem sub2A)"
    by (simp add: sub1A_def sub2A_def)
  note t = processSubmissions_normalizes[of sub1A sub2A exampleSubmissions]
  from t d have "problemKey sub1A \<noteq> problemKey sub2A" by blast
  moreover from t r have "distinct (map specKey (processSubmissions exampleSubmissions))" by blast
  moreover from t r have "find (\<lambda>t. verdict t = ''OK'' \<and> specKey t = specKey sub2A) exampleSubmissions = Some sub2A"
    by simp
  moreover from t r have "firstAccepted exampleSubmissions (specKey sub1A) < firstAccepted exampleSubmissions (specKey sub2A)"
    by simp
  ultimately show ?thesis using r m by simp
qed

section \<open>Properties of the retry loop\<close>

lemma retryLoop_exit:
  "\<not> i < retries \<Longrightarrow>
     retryLoop net retries i w = \<lparr>outcome = ReturnedUndefined, requests = nat i, delays = w\<rparr>"
  by (subst retryLoop.simps) simp

lemma retryLoop_ok:
  "i < retries \<Longrightarrow> attempt (net (nat i)) = Inr p \<Longrightarrow>
     retryLoop net retries i w = \<lparr>outcome = Returned p, requests = nat (i + 1), delays = w\<rparr>"
  by (subst retryLoop.simps) simp

lemma retryLoop_last:
  "i < retries \<Longrightarrow> attempt (net (nat i)) = Inl e \<Longrightarrow> i = retries - 1 \<Longrightarrow>
     retryLoop net retries i w = \<lparr>outcome = Thrown e, requests = nat (i + 1), delays = w\<rparr>"
  by (subst retryLoop.simps) simp

lemma retryLoop_again:
  "i < retries \<Longrightarrow> attempt (net (nat i)) = Inl e \<Longrightarrow> i \<noteq> retries - 1 \<Longrightarrow>
     retryLoop net retries i w = retryLoop net retries (i + 1) (w @ [1000 * (i + 1)])"
  by (subst retryLoop.simps) simp

lemma retryLoop_settles:
  "0 \<le> i \<Longrightarrow> i < retries \<Longrightarrow>
     (\<exists>j p. i \<le> j \<and> j < retries \<and> attempt (net (nat j)) = Inr p
            \<and> (\<forall>k. i \<le> k \<and> k < j \<longrightarrow> isl (attempt (net (nat k))))
            \<and> outcome (retryLoop net retries i w) = Returned p
            \<and> requests (retryLoop net retries i w) = nat (j + 1))
     \<or> ((\<forall>k. i \<le> k \<and> k < retries \<longrightarrow> isl (attempt (net (nat k))))
        \<and> outcome (retryLoop net retries i w) = Thrown (projl (attempt (net (nat (retries - 1)))))
        \<and> requests (retryLoop net retries i w) = nat retries)"
proof (induction net retries i w rule: retryLoop.induct)
  case (1 net retries i waited)
  show ?case
  proof (cases "attempt (net (nat i))")
    case (Inr p)
    then have "outcome (retryLoop net retries i waited) = Returned p"
      "requests (retryLoop net retries i waited) = nat (i + 1)"
      using 1(3) by (simp_all add: retryLoop_ok)
    then show ?thesis using Inr 1(3) by (intro disjI1 exI[of _ i] exI[of _ p]) auto
  next
    case (Inl e)
    show ?thesis
    proof (cases "i = retries - 1")
      case True
      then have r: "outcome (retryLoop net retries i waited) = Thrown e"
        "requests (retryLoop net retries i waited) = nat (i + 1)"
        using 1(3) Inl by (simp_all add: retryLoop_last)
      have "\<forall>k. i \<le> k \<and> k < retries \<longrightarrow> isl (attempt (net (nat k)))"
      proof (intro allI impI)
        fix k assume "i \<le> k \<and> k < retries"
        then have "k = i" using True by simp
        then show "isl (attempt (net (nat k)))" using Inl by simp
      qed
      then show ?thesis using r True Inl by (intro disjI2) auto
    next
      case False
      then have lt: "i + 1 < retries" "0 \<le> i + 1" using 1(2,3) by simp_all
      have eq: "retryLoop net retries i waited = retryLoop net retries (i + 1) (waited @ [1000 * (i + 1)])"
        using 1(3) Inl False by (rule retryLoop_again)
      note IH = 1(1)[OF 1(3) Inl False lt(2) lt(1)]
      from IH show ?thesis
      proof (elim disjE exE conjE)
        fix j p
        assume a: "i + 1 \<le> j" "j < retries" "attempt (net (nat j)) = Inr p"
          "\<forall>k. i + 1 \<le> k \<and> k < j \<longrightarrow> isl (attempt (net (nat k)))"
          "outcome (retryLoop net retries (i + 1) (waited @ [1000 * (i + 1)])) = Returned p"
          "requests (retryLoop net retries (i + 1) (waited @ [1000 * (i + 1)])) = nat (j + 1)"
        have "\<forall>k. i \<le> k \<and> k < j \<longrightarrow> isl (attempt (net (nat k)))"
        proof (intro allI impI)
          fix k assume k: "i \<le> k \<and> k < j"
          show "isl (attempt (net (nat k)))"
          proof (cases "k = i")
            case True then show ?thesis using Inl by simp
          next
            case False then show ?thesis using k a(4) by simp
          qed
        qed
        then show ?thesis using a eq by (intro disjI1 exI[of _ j] exI[of _ p]) auto
      next
        assume a: "\<forall>k. i + 1 \<le> k \<and> k < retries \<longrightarrow> isl (attempt (net (nat k)))"
          "outcome (retryLoop net retries (i + 1) (waited @ [1000 * (i + 1)]))
             = Thrown (projl (attempt (net (nat (retries - 1)))))"
          "requests (retryLoop net retries (i + 1) (waited @ [1000 * (i + 1)])) = nat retries"
        have "\<forall>k. i \<le> k \<and> k < retries \<longrightarrow> isl (attempt (net (nat k)))"
        proof (intro allI impI)
          fix k assume k: "i \<le> k \<and> k < retries"
          show "isl (attempt (net (nat k)))"
          proof (cases "k = i")
            case True then show ?thesis using Inl by simp
          next
            case False then show ?thesis using k a(1) by simp
          qed
        qed
        then show ?thesis using a eq by (intro disjI2) auto
      qed
    qed
  qed
qed

lemma fetchWithRetry_two_failures:
  assumes "attempt (fetch url 0) = Inl e0" and "attempt (fetch url 1) = Inl e1"
  shows "fetchWithRetry fetch url None = retryLoop (fetch url) 3 2 [1000, 2000]"
proof -
  have "retryLoop (fetch url) 3 0 [] = retryLoop (fetch url) 3 (0 + 1) ([] @ [1000 * (0 + 1)])"
    using assms(1) by (intro retryLoop_again[of _ _ _ e0]) simp_all
  also have "\<dots> = retryLoop (fetch url) 3 (1 + 1) ([1000] @ [1000 * (1 + 1)])"
    using assms(2) by (simp add: retryLoop_again[of _ _ _ e1])
  finally show ?thesis by (simp add: fetchWithRetry_def)
qed

text \<open>
  Claim C2. With the default budget of three attempts: when the first two attempts
  fail and the third succeeds, \<open>fetchWithRetry\<close> returns the payload of the third and
  throws nothing; when all three attempts fail, it throws one error, the error of the
  third attempt, whose message is the message of the transport error or the comment of
  the service. In both cases three requests are issued, after waits of 1000 and 2000
  milliseconds.
\<close>

theorem fetchWithRetry_default_budget:
  assumes "attempt (fetch url 0) = Inl e0" and "attempt (fetch url 1) = Inl e1"
  shows "(attempt (fetch url 2) = Inr payload \<longrightarrow>
            fetchWithRetry fetch url None
              = \<lparr>outcome = Returned payload, requests = 3, delays = [1000, 2000]\<rparr>)
       \<and> (attempt (fetch url 2) = Inl e2 \<longrightarrow>
            fetchWithRetry fetch url None
              = \<lparr>outcome = Thrown e2, requests = 3, delays = [1000, 2000]\<rparr>)
       \<and> (fetch url 2 = Rejected m \<longrightarrow>
            outcome (fetchWithRetry fetch url None) = Thrown (Error m))
       \<and> (fetch url 2 = Response True st (Json s (Some c) r) \<and> s \<noteq> ''OK'' \<and> c \<noteq> [] \<longrightarrow>
            outcome (fetchWithRetry fetch url None) = Thrown (Error c))"
proof -
  note two = fetchWithRetry_two_failures[where fetch = fetch and url = url, OF assms]
  have ok: "attempt (fetch url 2) = Inr payload \<longrightarrow>
            fetchWithRetry fetch url None
              = \<lparr>outcome = Returned payload, requests = 3, delays = [1000, 2000]\<rparr>"
    unfolding two by (simp add: retryLoop_ok)
  have bad: "attempt (fetch url 2) = Inl e \<Longrightarrow>
            fetchWithRetry fetch url None
              = \<lparr>outcome = Thrown e, requests = 3, delays = [1000, 2000]\<rparr>" for e
    unfolding two by (simp add: retryLoop_last)
  have "fetch url 2 = Rejected m \<longrightarrow> outcome (fetchWithRetry fetch url None) = Thrown (Error m)"
  proof
    assume "fetch url 2 = Rejected m"
    then have "attempt (fetch url 2) = Inl (Error m)" by (simp add: attempt_def)
    then show "outcome (fetchWithRetry fetch url None) = Thrown (Error m)" by (simp add: bad)
  qed
  moreover have "fetch url 2 = Response True st (Json s (Some c) r) \<and> s \<noteq> ''OK'' \<and> c \<noteq> [] \<longrightarrow>
            outcome (fetchWithRetry fetch url None) = Thrown (Error c)"
  proof
    assume "fetch url 2 = Response True st (Json s (Some c) r) \<and> s \<noteq> ''OK'' \<and> c \<noteq> []"
    then have "attempt (fetch url 2) = Inl (Error c)" by (simp add: attempt_def orElse_def)
    then show "outcome (fetchWithRetry fetch url None) = Thrown (Error c)" by (simp add: bad)
  qed
  ultimately show ?thesis using ok bad by blast
qed

theorem fetchWithRetry_default_budget_witness:
  "fetchWithRetry flakyService ''u'' None
     = \<lparr>outcome = Returned exampleSubmissions, requests = 3, delays = [1000, 2000]\<rparr>
   \<and> fetchWithRetry failingService ''u'' None
     = \<lparr>outcome = Thrown (Error ''handle: User with handle nobody not found''),
        requests = 3, delays = [1000, 2000]\<rparr>"
proof -
  have a: "attempt (flakyService ''u'' 0) = Inl (Error ''Failed to fetch'')"
    "attempt (flakyService ''u'' 1) = Inl (Error ''HTTP error! status: 503'')"
    "attempt (flakyService ''u'' 2) = Inr exampleSubmissions"
    by (simp_all add: flakyService_def attempt_def numberToString_def digits.simps digitChar_def)
  have b: "attempt (failingService ''u'' 0) = Inl (Error ''Failed to fetch'')"
    "attempt (failingService ''u'' 1) = Inl (Error ''Failed to fetch'')"
    "attempt (failingService ''u'' 2) = Inl (Error ''handle: User with handle nobody not found'')"
    by (simp_all add: failingService_def attempt_def orElse_def)
  from fetchWithRetry_default_budget[where fetch = flakyService and url = "''u''" and payload = exampleSubmissions, OF a(1,2)] a(3)
  have "fetchWithRetry flakyService ''u'' None
     = \<lparr>outcome = Returned exampleSubmissions, requests = 3, delays = [1000, 2000]\<rparr>" by blast
  moreover from fetchWithRetry_default_budget[where fetch = failingService and url = "''u''" and ?e2.0 = "Error ''handle: User with handle nobody not found''", OF b(1,2)] b(3)
  have "fetchWithRetry failingService ''u'' None
     = \<lparr>outcome = Thrown (Error ''handle: User with handle nobody not found''),
        requests = 3, delays = [1000, 2000]\<rparr>" by blast
  ultimately show ?thesis by simp
qed

text \<open>
  Claim C10. With a retry budget of zero or less, \<open>fetchWithRetry\<close> issues no request
  and returns \<^verbatim>\<open>undefined\<close>: neither a payload nor an error. With a budget of at least
  one, every call ends by returning the payload of a successful attempt or by throwing
  the error of its last attempt.
\<close>

theorem fetchWithRetry_budget:
  "(retries \<le> 0 \<longrightarrow>
      fetchWithRetry fetch url (Some retries)
        = \<lparr>outcome = ReturnedUndefined, requests = 0, delays = []\<rparr>)
   \<and> (1 \<le> retries \<longrightarrow>
        (\<exists>j p. 0 \<le> j \<and> j < retries \<and> attempt (fetch url (nat j)) = Inr p
            \<and> outcome (fetchWithRetry fetch url (Some retries)) = Returned p
            \<and> requests (fetchWithRetry fetch url (Some retries)) = nat (j + 1))
      \<or> (\<exists>e. attempt (fetch url (nat (retries - 1))) = Inl e
            \<and> outcome (fetchWithRetry fetch url (Some retries)) = Thrown e
            \<and> requests (fetchWithRetry fetch url (Some retries)) = nat retries))"
proof (intro conjI impI)
  assume "retries \<le> 0"
  then show "fetchWithRetry fetch url (Some retries)
        = \<lparr>outcome = ReturnedUndefined, requests = 0, delays = []\<rparr>"
    by (simp add: fetchWithRetry_def retryLoop_exit)
next
  assume r: "1 \<le> retries"
  then have "0 \<le> (0::int)" "0 < retries" by simp_all
  from retryLoop_settles[OF this, of "fetch url" "[]"]
  show "(\<exists>j p. 0 \<le> j \<and> j < retries \<and> attempt (fetch url (nat j)) = Inr p
            \<and> outcome (fetchWithRetry fetch url (Some retries)) = Returned p
            \<and> requests (fetchWithRetry fetch url (Some retries)) = nat (j + 1))
      \<or> (\<exists>e. attempt (fetch url (nat (retries - 1))) = Inl e
            \<and> outcome (fetchWithRetry fetch url (Some retries)) = Thrown e
            \<and> requests (fetchWithRetry fetch url (Some retries)) = nat retries)"
  proof (elim disjE exE conjE)
    fix j p
    assume "0 \<le> j" "j < retries" "attempt (fetch url (nat j)) = Inr p"
      "outcome (retryLoop (fetch url) retries 0 []) = Returned p"
      "requests (retryLoop (fetch url) retries 0 []) = nat (j + 1)"
    then show ?thesis by (intro disjI1 exI[of _ j] exI[of _ p]) (simp add: fetchWithRetry_def)
  next
    assume a: "\<forall>k. 0 \<le> k \<and> k < retries \<longrightarrow> isl (attempt (fetch url (nat k)))"
      "outcome (retryLoop (fetch url) retries 0 [])
         = Thrown (projl (attempt (fetch url (nat (retries - 1)))))"
      "requests (retryLoop (fetch url) retries 0 []) = nat retries"
    from a(1) r have "isl (attempt (fetch url (nat (retries - 1))))" by simp
    then obtain e where "attempt (fetch url (nat (retries - 1))) = Inl e"
      by (cases "attempt (fetch url (nat (retries - 1)))") auto
    then show ?thesis using a by (intro disjI2 exI[of _ e]) (simp add: fetchWithRetry_def)
  qed
qed

theorem fetchWithRetry_budget_witness:
  "fetchWithRetry failingService ''u'' (Some 0)
     = \<lparr>outcome = ReturnedUndefined, requests = 0, delays = []\<rparr>
   \<and> fetchWithRetry failingService ''u'' (Some (- 2))
     = \<lparr>outcome = ReturnedUndefined, requests = 0, delays = []\<rparr>
   \<and> outcome (fetchWithRetry failingService ''u'' (Some 1)) = Thrown (Error ''Failed to fetch'')
   \<and> requests (fetchWithRetry failingService ''u'' (Some 1)) = 1"
proof -
  have b: "attempt (failingService ''u'' 0) = Inl (Error ''Failed to fetch'')"
    by (simp add: failingService_def attempt_def)
  from fetchWithRetry_budget[of 0 failingService "''u''"]
  have "fetchWithRetry failingService ''u'' (Some 0)
     = \<lparr>outcome = ReturnedUndefined, requests = 0, delays = []\<rparr>" by simp
  moreover from fetchWithRetry_budget[of "- 2" failingService "''u''"]
  have "fetchWithRetry failingService ''u'' (Some (- 2))
     = \<lparr>outcome = ReturnedUndefined, requests = 0, delays = []\<rparr>" by simp
  moreover from fetchWithRetry_budget[of 1 failingService "''u''"] b
  have "outcome (fetchWithRetry failingService ''u'' (Some 1)) = Thrown (Error ''Failed to fetch'')
      \<and> requests (fetchWithRetry failingService ''u'' (Some 1)) = 1"
    by auto
  ultimately show ?thesis by simp
qed

section \<open>Properties of the contest statistics\<close>

lemma foldl_sum: "foldl (\<lambda>sum contest. sum + newRating contest) a h = a + sum_list (map newRating h)"
  by (induction h arbitrary: a) auto

lemma mathMin_Min: "h \<noteq> [] \<Longrightarrow> mathMin (map rank h) = Num (Min (rank ` set h))"
proof (cases h)
  case Nil
  then show "h \<noteq> [] \<Longrightarrow> ?thesis" by simp
next
  case (Cons x xs)
  have "Min (set (rank x # map rank xs)) = fold min (map rank xs) (rank x)"
    by (rule Min.set_eq_fold)
  then show ?thesis using Cons by simp
qed

text \<open>
  Claim C5, as amended. For every rating history: \<open>attended\<close> is its length; when it is
  not empty, \<open>bestRank\<close> is the minimum of the ranks and \<open>avgRating\<close> the mean of the new
  ratings rounded to the nearest integer; when it is empty, \<open>attended\<close> is 0 and
  \<open>bestRank\<close> and \<open>avgRating\<close> are the one-character string \<^verbatim>\<open>-\<close> (the hyphen-minus,
  U+002D).
\<close>

theorem calculateContestStats_summary:
  "attended (calculateContestStats h) = length h
   \<and> (h = [] \<longrightarrow> calculateContestStats h
          = \<lparr>attended = 0, bestRank = Text ''-'', avgRating = Text ''-''\<rparr>)
   \<and> (h \<noteq> [] \<longrightarrow>
        bestRank (calculateContestStats h) = Num (Min (rank ` set h))
      \<and> avgRating (calculateContestStats h)
          = Num (round (real_of_int (sum_list (map newRating h)) / real (length h))))"
  by (simp add: calculateContestStats_def Let_def mathMin_Min foldl_sum mathRound_def round_def)

theorem calculateContestStats_summary_witness:
  "exampleHistory \<noteq> []
   \<and> calculateContestStats exampleHistory = \<lparr>attended = 2, bestRank = Num 300, avgRating = Num 1501\<rparr>
   \<and> calculateContestStats [] = \<lparr>attended = 0, bestRank = Text ''-'', avgRating = Text ''-''\<rparr>"
proof -
  have n: "exampleHistory \<noteq> []" by (simp add: exampleHistory_def)
  have e: "rank ` set exampleHistory = {1200, 300}" "sum_list (map newRating exampleHistory) = 3001"
    "length exampleHistory = 2"
    by (simp_all add: exampleHistory_def)
  from calculateContestStats_summary[of exampleHistory] n
  have "attended (calculateContestStats exampleHistory) = 2
     \<and> bestRank (calculateContestStats exampleHistory) = Num 300
     \<and> avgRating (calculateContestStats exampleHistory) = Num 1501"
    unfolding e by (simp add: round_def)
  then have "calculateContestStats exampleHistory = \<lparr>attended = 2, bestRank = Num 300, avgRating = Num 1501\<rparr>"
    by (cases "calculateContestStats exampleHistory") simp
  moreover from calculateContestStats_summary[of "[]"]
  have "calculateContestStats [] = \<lparr>attended = 0, bestRank = Text ''-'', avgRating = Text ''-''\<rparr>" by simp
  ultimately show ?thesis using n by simp
qed

text \<open>
  Claim C5 as stated names the em dash (U+2014) as the sentinel; the code returns
  another string.
\<close>

theorem calculateContestStats_sentinel_counterexample:
  "bestRank (calculateContestStats []) \<noteq> Text emDash
   \<and> avgRating (calculateContestStats []) \<noteq> Text emDash"
  by (simp add: calculateContestStats_def emDash_def)

section \<open>Properties of the histograms\<close>

lemmas stats_eval = calculateProblemStats_def countSubmission_def
      bump_def getProperty_def setProperty_def orZero_def prototypeFunctions_def numberToString_def digits.simps digitChar_def

lemma ex1: "calculateProblemStats [sub1A, sub2A]
   = \<lparr>levels = [(''A'', Num 2)], ratings = [(''1200'', Num 1)], tagCounts = [(''dp'', Num 2), (''greedy'', Num 1)]\<rparr>"
  by (simp add: stats_eval sub1A_def sub2A_def)

lemma ex2: "calculateProblemStats [subConstructor, subProto]
   = \<lparr>levels = [(''B'', Num 1)], ratings = [],
      tagCounts = [(''constructor'', Text ''function Object() { [native code] }1'')]\<rparr>"
  by (simp add: stats_eval subConstructor_def subProto_def)

lemma ex3: "calculateProblemStats [subRatedZero] = \<lparr>levels = [(''A'', Num 1)], ratings = [], tagCounts = []\<rparr>"
  by (simp add: stats_eval subRatedZero_def)

lemma map_of_map_set: "map_of (map_set m k v) k' = (if k' = k then Some v else map_of m k')"
  by (induction m) auto

lemma keys_map_set: "map fst (map_set m k v) = (if k \<in> fst ` set m then map fst m else map fst m @ [k])"
proof (induction m)
  case Nil
  then show ?case by simp
next
  case (Cons e m)
  obtain k' v' where e: "e = (k', v')" by (cases e)
  show ?case
  proof (cases "k' = k")
    case True
    then show ?thesis using e by simp
  next
    case False
    then have "k \<in> fst ` set (e # m) \<longleftrightarrow> k \<in> fst ` set m" using e by auto
    then show ?thesis using False e Cons by simp
  qed
qed

lemma set_map_set: "set (map_set m k v) \<subseteq> insert (k, v) (set m)"
  by (induction m) (auto split: if_splits)

lemma distinct_map_set: "distinct (map fst m) \<Longrightarrow> distinct (map fst (map_set m k v))"
  by (simp add: keys_map_set)

lemma countTotal_alt: "countTotal obj = sum_list (map (\<lambda>e. numeric (snd e)) obj)"
  by (simp add: countTotal_def numeric_def case_prod_unfold)

lemma countOf_alt: "countOf obj k = (case map_of obj k of Some v \<Rightarrow> numeric v | None \<Rightarrow> 0)"
  by (simp add: countOf_def numeric_def split: option.splits jsPrimitive.splits)

lemma countTotal_map_set:
  "distinct (map fst m) \<Longrightarrow> countTotal (map_set m k v) = countTotal m - countOf m k + numeric v"
proof (induction m)
  case Nil
  then show ?case by (simp add: countTotal_alt countOf_alt)
next
  case (Cons e m)
  obtain k' v' where e: "e = (k', v')" by (cases e)
  show ?case
  proof (cases "k' = k")
    case True
    then show ?thesis using e by (simp add: countTotal_alt countOf_alt)
  next
    case False
    have "countTotal (map_set m k v) = countTotal m - countOf m k + numeric v"
      using Cons by simp
    then show ?thesis using False e by (simp add: countTotal_alt countOf_alt)
  qed
qed

lemma counter_lookup:
  assumes "counter obj" "map_of obj k = Some v"
  shows "\<exists>n. v = Num n \<and> 0 < n"
proof -
  from assms(2) have "(k, v) \<in> set obj" by (rule map_of_SomeD)
  with assms(1) have "case v of Num n \<Rightarrow> 0 < n | _ \<Rightarrow> False"
    by (auto simp: counter_def list_all_iff)
  then show ?thesis by (cases v) auto
qed

lemma bump_counter_eq:
  assumes "counter obj" "ordinaryKey k"
  shows "bump obj k = map_set obj k (Num (countOf obj k + 1))"
proof (cases "map_of obj k")
  case None
  then have "getProperty obj k = Undefined"
    using assms(2) by (simp add: getProperty_def ordinaryKey_def)
  then show ?thesis using None assms(2)
    by (simp add: bump_def orZero_def setProperty_def ordinaryKey_def countOf_def)
next
  case (Some v)
  then obtain n where n: "v = Num n" "0 < n" using counter_lookup[OF assms(1)] by blast
  then have "getProperty obj k = Primitive (Num n)" using Some by (simp add: getProperty_def)
  then show ?thesis using Some n assms(2)
    by (simp add: bump_def orZero_def setProperty_def ordinaryKey_def countOf_def)
qed

lemma counter_nonneg: "counter obj \<Longrightarrow> 0 \<le> countOf obj k"
proof (cases "map_of obj k")
  case None
  then show ?thesis by (simp add: countOf_def)
next
  case (Some v)
  assume "counter obj"
  then obtain n where "v = Num n" "0 < n" using counter_lookup Some by blast
  then show ?thesis using Some by (simp add: countOf_def)
qed

lemma bump_counter:
  assumes "counter obj" "ordinaryKey k"
  shows "counter (bump obj k)"
    and "countOf (bump obj k) k' = countOf obj k' + (if k' = k then 1 else 0)"
    and "countTotal (bump obj k) = countTotal obj + 1"
    and "fst ` set (bump obj k) = insert k (fst ` set obj)"
proof -
  note eq = bump_counter_eq[OF assms]
  have d: "distinct (map fst obj)" using assms(1) by (simp add: counter_def)
  have pos: "0 < countOf obj k + 1" using counter_nonneg[OF assms(1), of k] by simp
  have "set (map_set obj k (Num (countOf obj k + 1))) \<subseteq> insert (k, Num (countOf obj k + 1)) (set obj)"
    by (rule set_map_set)
  then have "list_all (\<lambda>(k, v). case v of Num n \<Rightarrow> 0 < n | _ \<Rightarrow> False) (map_set obj k (Num (countOf obj k + 1)))"
    using assms(1) pos unfolding counter_def list_all_iff by (auto split: jsPrimitive.splits)
  then show "counter (bump obj k)" unfolding eq counter_def using d by (simp add: distinct_map_set)
  show "countOf (bump obj k) k' = countOf obj k' + (if k' = k then 1 else 0)"
    unfolding eq by (simp add: countOf_def map_of_map_set)
  show "countTotal (bump obj k) = countTotal obj + 1"
    unfolding eq by (simp add: countTotal_map_set[OF d] numeric_def)
  have "set (map fst (bump obj k)) = insert k (set (map fst obj))"
    unfolding eq keys_map_set by auto
  then show "fst ` set (bump obj k) = insert k (fst ` set obj)" by simp
qed

lemma bump_all_counter:
  assumes "counter obj" "\<forall>k \<in> set ks. ordinaryKey k"
  shows "counter (foldl bump obj ks)
       \<and> (\<forall>k'. countOf (foldl bump obj ks) k' = countOf obj k' + int (count_list ks k'))
       \<and> countTotal (foldl bump obj ks) = countTotal obj + int (length ks)
       \<and> fst ` set (foldl bump obj ks) = fst ` set obj \<union> set ks"
  using assms
proof (induction ks rule: rev_induct)
  case Nil
  then show ?case by simp
next
  case (snoc k ks)
  then have IH: "counter (foldl bump obj ks)"
    "\<And>k'. countOf (foldl bump obj ks) k' = countOf obj k' + int (count_list ks k')"
    "countTotal (foldl bump obj ks) = countTotal obj + int (length ks)"
    "fst ` set (foldl bump obj ks) = fst ` set obj \<union> set ks"
    by simp_all
  have k: "ordinaryKey k" using snoc.prems by simp
  note b = bump_counter[OF IH(1) k]
  show ?case
    using b(1) b(2) b(3) b(4) IH(2,3,4) by (simp add: count_list_append) 
qed

lemma numberToString_inj: "numberToString a = numberToString b \<Longrightarrow> a = b"
  using numberToString_key_inj[of a "[]" b "[]"] by simp

lemma prototype_key_initial:
  "k \<in> insert ''__proto__'' (fst ` set prototypeFunctions) \<Longrightarrow> \<exists>c cs. k = c # cs \<and> c \<in> set ''c_hiptv''"
  unfolding prototypeFunctions_def by (elim insertE imageE; simp) fastforce

lemma numberToString_ordinary: "ordinaryKey (numberToString b)"
proof -
  obtain c cs where c: "numberToString b = c # cs" "c \<in> set ''-0123456789''"
    using numberToString_hd by blast
  have "set ''-0123456789'' \<inter> set ''c_hiptv'' = {}" by simp
  then have n: "c \<notin> set ''c_hiptv''" using c(2) by blast
  have "numberToString b \<notin> insert ''__proto__'' (fst ` set prototypeFunctions)"
  proof
    assume "numberToString b \<in> insert ''__proto__'' (fst ` set prototypeFunctions)"
    then obtain d ds where "numberToString b = d # ds" "d \<in> set ''c_hiptv''"
      using prototype_key_initial by blast
    then show False using c(1) n by simp
  qed
  then show ?thesis
    unfolding ordinaryKey_def by (simp add: map_of_eq_None_iff)
qed

lemma calculateProblemStats_Nil:
  "calculateProblemStats [] = \<lparr>levels = [], ratings = [], tagCounts = []\<rparr>"
  by (simp add: calculateProblemStats_def)

lemma calculateProblemStats_snoc:
  "calculateProblemStats (xs @ [x]) = countSubmission (calculateProblemStats xs) x"
  by (simp add: calculateProblemStats_def)

lemma countSubmission_fields:
  "levels (countSubmission st x) = bump (levels st) (index (problem x))"
  "ratings (countSubmission st x) =
     (case rating (problem x) of
        None \<Rightarrow> ratings st
      | Some r \<Rightarrow> if r \<noteq> 0 then bump (ratings st) (numberToString (r div 100 * 100)) else ratings st)"
  "tagCounts (countSubmission st x) = foldl bump (tagCounts st) (tags (problem x))"
  by (simp_all add: countSubmission_def Let_def split: option.splits)

lemma counter_empty: "counter []" "countOf [] k = 0" "countTotal [] = 0"
  by (simp_all add: counter_def countOf_def countTotal_def)

lemma ratings_invariant:
  "counter (ratings (calculateProblemStats xs))
   \<and> (\<forall>b. countOf (ratings (calculateProblemStats xs)) (numberToString b)
            = int (length (filter (inBucket b) xs)))
   \<and> countTotal (ratings (calculateProblemStats xs))
        = int (length (filter (\<lambda>s. \<exists>b. inBucket b s) xs))
   \<and> fst ` set (ratings (calculateProblemStats xs)) = numberToString ` {b. \<exists>s \<in> set xs. inBucket b s}"
proof (induction xs rule: rev_induct)
  case Nil
  then show ?case by (simp add: calculateProblemStats_Nil counter_empty)
next
  case (snoc x xs)
  let ?R = "ratings (calculateProblemStats xs)"
  from snoc have IH: "counter ?R"
    "\<And>b. countOf ?R (numberToString b) = int (length (filter (inBucket b) xs))"
    "countTotal ?R = int (length (filter (\<lambda>s. \<exists>b. inBucket b s) xs))"
    "fst ` set ?R = numberToString ` {b. \<exists>s \<in> set xs. inBucket b s}"
    by simp_all
  show ?case
  proof (cases "\<exists>b. inBucket b x")
    case False
    then have no: "\<And>b. \<not> inBucket b x" by blast
    have "rating (problem x) = None \<or> rating (problem x) = Some 0"
    proof (cases "rating (problem x)")
      case None
      then show ?thesis by simp
    next
      case (Some r)
      then have "r = 0" using no[of "r div 100 * 100"] by (simp add: inBucket_def)
      then show ?thesis using Some by simp
    qed
    then have "ratings (calculateProblemStats (xs @ [x])) = ?R"
      by (auto simp: calculateProblemStats_snoc countSubmission_fields)
    moreover have "{b. \<exists>s \<in> set (xs @ [x]). inBucket b s} = {b. \<exists>s \<in> set xs. inBucket b s}"
      using no by auto
    ultimately show ?thesis using IH no by simp
  next
    case True
    then obtain r where r: "rating (problem x) = Some r" "r \<noteq> 0"
      by (auto simp: inBucket_def split: option.splits)
    let ?b = "r div 100 * 100"
    have inb: "\<And>b. inBucket b x \<longleftrightarrow> b = ?b" using r by (auto simp: inBucket_def)
    have eq: "ratings (calculateProblemStats (xs @ [x])) = bump ?R (numberToString ?b)"
      using r by (simp add: calculateProblemStats_snoc countSubmission_fields)
    note b = bump_counter[OF IH(1) numberToString_ordinary[of ?b]]
    have c: "\<forall>b. countOf (bump ?R (numberToString ?b)) (numberToString b)
            = int (length (filter (inBucket b) (xs @ [x])))"
    proof
      fix b'
      have "numberToString b' = numberToString ?b \<longleftrightarrow> b' = ?b"
        using numberToString_inj by blast
      then show "countOf (bump ?R (numberToString ?b)) (numberToString b')
            = int (length (filter (inBucket b') (xs @ [x])))"
        using b(2)[of "numberToString b'"] IH(2)[of b'] inb[of b'] by simp
    qed
    have t: "countTotal (bump ?R (numberToString ?b)) = int (length (filter (\<lambda>s. \<exists>b. inBucket b s) (xs @ [x])))"
      using b(3) IH(3) True by simp
    have "{b. \<exists>s \<in> set (xs @ [x]). inBucket b s} = insert ?b {b. \<exists>s \<in> set xs. inBucket b s}"
      using inb by auto
    then have k: "fst ` set (bump ?R (numberToString ?b)) = numberToString ` {b. \<exists>s \<in> set (xs @ [x]). inBucket b s}"
      using b(4) IH(4) by simp
    show ?thesis unfolding eq using b(1) c t k by blast
  qed
qed

lemma counter_map_of:
  assumes "counter obj"
  shows "map_of obj k = (if countOf obj k = 0 then None else Some (Num (countOf obj k)))"
proof (cases "map_of obj k")
  case None
  then show ?thesis by (simp add: countOf_def)
next
  case (Some v)
  then obtain n where "v = Num n" "0 < n" using counter_lookup[OF assms] by blast
  then show ?thesis using Some by (simp add: countOf_def)
qed

text \<open>
  The rating histogram counts as claim C4 says for every rating that is present and
  not 0: under the numeral of a bucket \<open>b\<close> it holds the number of submissions whose
  rating is present, not 0, and has \<open>floor(rating / 100) * 100 = b\<close>, and no entry when
  there is none; it has no other key (so no bucket for the unrated), each key once;
  and its counts add up to the number of submissions with such a rating.
\<close>

lemma ratings_histogram:
  "map_of (ratings (calculateProblemStats xs)) (numberToString b)
     = (if filter (inBucket b) xs = [] then None
        else Some (Num (int (length (filter (inBucket b) xs)))))
   \<and> fst ` set (ratings (calculateProblemStats xs)) = numberToString ` {b. \<exists>s \<in> set xs. inBucket b s}
   \<and> distinct (map fst (ratings (calculateProblemStats xs)))
   \<and> countTotal (ratings (calculateProblemStats xs))
        = int (length (filter (\<lambda>s. \<exists>r. rating (problem s) = Some r \<and> r \<noteq> 0) xs))"
proof -
  note inv = ratings_invariant[of xs]
  have c: "counter (ratings (calculateProblemStats xs))" using inv by blast
  have "map_of (ratings (calculateProblemStats xs)) (numberToString b)
     = (if filter (inBucket b) xs = [] then None
        else Some (Num (int (length (filter (inBucket b) xs)))))"
    using inv by (simp add: counter_map_of[OF c])
  moreover have "(\<lambda>s. \<exists>b. inBucket b s) = (\<lambda>s. \<exists>r. rating (problem s) = Some r \<and> r \<noteq> 0)"
    by (auto simp: inBucket_def fun_eq_iff split: option.splits)
  moreover have "distinct (map fst (ratings (calculateProblemStats xs)))"
    using c by (simp add: counter_def)
  ultimately show ?thesis using inv by simp
qed

lemma ratings_histogram_example:
  "map_of (ratings (calculateProblemStats [sub1A, sub2A])) ''1200'' = Some (Num 1)
   \<and> map_of (ratings (calculateProblemStats [sub1A, sub2A])) ''800'' = None
   \<and> fst ` set (ratings (calculateProblemStats [sub1A, sub2A])) = {''1200''}
   \<and> countTotal (ratings (calculateProblemStats [sub1A, sub2A])) = 1"
proof -
  have n: "numberToString 1200 = ''1200''" "numberToString 800 = ''800''"
    by (simp_all add: numberToString_def digits.simps digitChar_def)
  have f: "filter (inBucket 1200) [sub1A, sub2A] = [sub2A]" "filter (inBucket 800) [sub1A, sub2A] = []"
    "filter (\<lambda>s. \<exists>r. rating (problem s) = Some r \<and> r \<noteq> 0) [sub1A, sub2A] = [sub2A]"
    by (simp_all add: inBucket_def sub1A_def sub2A_def)
  have "{b. \<exists>s \<in> set [sub1A, sub2A]. inBucket b s} = {1200}"
    by (auto simp: inBucket_def sub1A_def sub2A_def)
  then have k: "numberToString ` {b. \<exists>s \<in> set [sub1A, sub2A]. inBucket b s} = {''1200''}"
    using n by simp
  from ratings_histogram[of "[sub1A, sub2A]" 1200] ratings_histogram[of "[sub1A, sub2A]" 800]
  show ?thesis unfolding k f n by simp
qed

text \<open>
  Claim C4 at accepted submissions that carry a rating: one with the rating 0 and one
  with the rating 50, both of bucket \<open>floor(rating / 100) * 100 = 0\<close>. The guard
  \<^verbatim>\<open>if (sub.problem.rating)\<close> tests the rating for truthiness, not for presence: the
  submission with the rating 50 is counted under the bucket 0, the submission with the
  rating 0 is counted in no bucket, and of the two together one is counted.
\<close>

theorem ratings_histogram_rating_zero:
  "processSubmissions [subRatedZero, subRatedFifty] = [subRatedZero, subRatedFifty]
   \<and> rating (problem subRatedZero) = Some 0
   \<and> rating (problem subRatedFifty) = Some 50
   \<and> numberToString (0 div 100 * 100) = ''0''
   \<and> numberToString (50 div 100 * 100) = ''0''
   \<and> ratings (calculateProblemStats [subRatedFifty]) = [(''0'', Num 1)]
   \<and> ratings (calculateProblemStats [subRatedZero]) = []
   \<and> ratings (calculateProblemStats [subRatedZero, subRatedFifty]) = [(''0'', Num 1)]"
  by (simp add: stats_eval subRatedZero_def subRatedFifty_def processSubmissions_def addUnique_def
      map_has_def map_values_def problemKey_def)

text \<open>
  The level histogram and the tag histogram count as claim C8 says as long as no index
  and no tag is the name of a property inherited from \<^verbatim>\<open>Object.prototype\<close>.
\<close>

lemma levels_tags_invariant:
  assumes "\<forall>s \<in> set xs. ordinaryKey (index (problem s)) \<and> (\<forall>t \<in> set (tags (problem s)). ordinaryKey t)"
  shows "counter (levels (calculateProblemStats xs))
       \<and> counter (tagCounts (calculateProblemStats xs))
       \<and> (\<forall>l. countOf (levels (calculateProblemStats xs)) l
               = int (length (filter (\<lambda>s. index (problem s) = l) xs)))
       \<and> (\<forall>t. countOf (tagCounts (calculateProblemStats xs)) t
               = int (sum_list (map (\<lambda>s. count_list (tags (problem s)) t) xs)))
       \<and> countTotal (levels (calculateProblemStats xs)) = int (length xs)
       \<and> countTotal (tagCounts (calculateProblemStats xs))
           = int (sum_list (map (\<lambda>s. length (tags (problem s))) xs))"
  using assms
proof (induction xs rule: rev_induct)
  case Nil
  then show ?case by (simp add: calculateProblemStats_Nil counter_empty)
next
  case (snoc x xs)
  let ?L = "levels (calculateProblemStats xs)" and ?T = "tagCounts (calculateProblemStats xs)"
  from snoc have IH: "counter ?L" "counter ?T"
    "\<And>l. countOf ?L l = int (length (filter (\<lambda>s. index (problem s) = l) xs))"
    "\<And>t. countOf ?T t = int (sum_list (map (\<lambda>s. count_list (tags (problem s)) t) xs))"
    "countTotal ?L = int (length xs)"
    "countTotal ?T = int (sum_list (map (\<lambda>s. length (tags (problem s))) xs))"
    by simp_all
  have o: "ordinaryKey (index (problem x))" "\<forall>t \<in> set (tags (problem x)). ordinaryKey t"
    using snoc.prems by simp_all
  note l = bump_counter[OF IH(1) o(1)]
  from bump_all_counter[OF IH(2) o(2)]
  have t: "counter (foldl bump ?T (tags (problem x)))"
    "\<And>k'. countOf (foldl bump ?T (tags (problem x))) k' = countOf ?T k' + int (count_list (tags (problem x)) k')"
    "countTotal (foldl bump ?T (tags (problem x))) = countTotal ?T + int (length (tags (problem x)))"
    by simp_all
  have "\<forall>l. countOf (bump ?L (index (problem x))) l
           = int (length (filter (\<lambda>s. index (problem s) = l) (xs @ [x])))"
    using l(2) IH(3) by auto
  moreover have "\<forall>k. countOf (foldl bump ?T (tags (problem x))) k
           = int (sum_list (map (\<lambda>s. count_list (tags (problem s)) k) (xs @ [x])))"
    using t(2) IH(4) by simp
  moreover have "countTotal (bump ?L (index (problem x))) = int (length (xs @ [x]))"
    using l(3) IH(5) by simp
  moreover have "countTotal (foldl bump ?T (tags (problem x)))
           = int (sum_list (map (\<lambda>s. length (tags (problem s))) (xs @ [x])))"
    using t(3) IH(6) by simp
  ultimately show ?case
    unfolding calculateProblemStats_snoc countSubmission_fields using l(1) t(1) by blast
qed

text \<open>
  Claim C8 at two accepted submissions with distinct problem keys: one has the tag
  \<^verbatim>\<open>constructor\<close>, the other has the index and the tag \<^verbatim>\<open>__proto__\<close>. The level histogram
  counts 1 for the 2 submissions; the tag histogram holds a string under
  \<^verbatim>\<open>constructor\<close> and nothing under \<^verbatim>\<open>__proto__\<close>, so its counts add up to 0 for the 2
  tag occurrences.
\<close>

theorem histogram_inherited_names:
  "processSubmissions [subConstructor, subProto] = [subConstructor, subProto]
   \<and> calculateProblemStats [subConstructor, subProto]
       = \<lparr>levels = [(''B'', Num 1)], ratings = [],
          tagCounts = [(''constructor'', Text ''function Object() { [native code] }1'')]\<rparr>
   \<and> countTotal (levels (calculateProblemStats [subConstructor, subProto])) = 1
   \<and> length [subConstructor, subProto] = 2
   \<and> countTotal (tagCounts (calculateProblemStats [subConstructor, subProto])) = 0
   \<and> sum_list (map (\<lambda>s. length (tags (problem s))) [subConstructor, subProto]) = 2"
proof -
  have p: "processSubmissions [subConstructor, subProto] = [subConstructor, subProto]"
    by (simp add: subConstructor_def subProto_def processSubmissions_def addUnique_def map_has_def
      map_values_def problemKey_def numberToString_def digits.simps digitChar_def)
  have c: "calculateProblemStats [subConstructor, subProto]
       = \<lparr>levels = [(''B'', Num 1)], ratings = [],
          tagCounts = [(''constructor'', Text ''function Object() { [native code] }1'')]\<rparr>"
    by (simp add: stats_eval subConstructor_def subProto_def)
  have "sum_list (map (\<lambda>s. length (tags (problem s))) [subConstructor, subProto]) = 2"
    by (simp add: subConstructor_def subProto_def)
  then show ?thesis using p unfolding c by (simp add: countTotal_def)
qed

section \<open>Properties of the history filter\<close>

lemma includesStr_iff: "includesStr s needle \<longleftrightarrow> sublist needle s"
  by (induction s) (simp_all add: sublist_Cons_right)

lemma resultOf_same: "resultOf (r, st) = ratingArrays st ! r"
  by (simp add: resultOf_def)

lemma resultOf_new: "resultOf (newRatingArray st xs) = xs"
  by (simp add: resultOf_def newRatingArray_def)

lemma newRatingArray_frame:
  "take (length (ratingArrays st)) (ratingArrays (snd (newRatingArray st xs))) = ratingArrays st"
  "submissionArrays (snd (newRatingArray st xs)) = submissionArrays st"
  "textContent (snd (newRatingArray st xs)) = textContent st"
  by (simp_all add: newRatingArray_def)

lemma filterContestsByType_result:
  "resultOf (filterContestsByType st r contestType)
     = (if contestType = ''All'' then ratingArrays st ! r
        else filter (matchesType contestType) (ratingArrays st ! r))"
  by (simp add: filterContestsByType_def Let_def resultOf_same resultOf_new)

lemma filterRatingHistoryByTime_result:
  "resultOf (filterRatingHistoryByTime dateNow st r timeFrame)
     = (if timeFrame = ''1Y''
        then filter (\<lambda>contest. real_of_int dateNow / 1000 - 31536000 \<le> real_of_int (ratingUpdateTimeSeconds contest))
               (ratingArrays st ! r)
        else if timeFrame = ''6M''
        then filter (\<lambda>contest. real_of_int dateNow / 1000 - 15552000 \<le> real_of_int (ratingUpdateTimeSeconds contest))
               (ratingArrays st ! r)
        else ratingArrays st ! r)"
  by (simp add: filterRatingHistoryByTime_def Let_def resultOf_same resultOf_new)

lemma filter_frame:
  "take (length (ratingArrays st)) (ratingArrays (snd (filterContestsByType st r contestType))) = ratingArrays st"
  "submissionArrays (snd (filterContestsByType st r contestType)) = submissionArrays st"
  "textContent (snd (filterContestsByType st r contestType)) = textContent st"
  "take (length (ratingArrays st)) (ratingArrays (snd (filterRatingHistoryByTime dateNow st r timeFrame))) = ratingArrays st"
  "submissionArrays (snd (filterRatingHistoryByTime dateNow st r timeFrame)) = submissionArrays st"
  "textContent (snd (filterRatingHistoryByTime dateNow st r timeFrame)) = textContent st"
  by (simp_all add: filterContestsByType_def filterRatingHistoryByTime_def Let_def newRatingArray_frame)

text \<open>
  Claim C6. The category filter decides on the contest name in lower case: with the
  label \<^verbatim>\<open>Div. 1\<close> it retains exactly the entries whose name contains \<^verbatim>\<open>div. 1\<close> and
  does not contain \<^verbatim>\<open>div. 2\<close>, so no retained entry contains \<^verbatim>\<open>div. 2\<close>; with
  \<^verbatim>\<open>Div. 2\<close>, \<^verbatim>\<open>Div. 3\<close> and \<^verbatim>\<open>Educational\<close> exactly those that contain
  \<^verbatim>\<open>div. 2\<close>, \<^verbatim>\<open>div. 3\<close> and \<^verbatim>\<open>educational\<close>; with \<^verbatim>\<open>All\<close> and with any other
  label every entry. Containing is being a contiguous sublist; the retained entries
  keep their order, as \<open>filter\<close> does.
\<close>

theorem filterContestsByType_predicate:
  "resultOf (filterContestsByType st r ''Div. 1'')
     = filter (\<lambda>e. sublist ''div. 1'' (toLowerCase (contestName e))
                  \<and> \<not> sublist ''div. 2'' (toLowerCase (contestName e))) (ratingArrays st ! r)
   \<and> (\<forall>e \<in> set (resultOf (filterContestsByType st r ''Div. 1'')).
         \<not> sublist ''div. 2'' (toLowerCase (contestName e)))
   \<and> resultOf (filterContestsByType st r ''Div. 2'')
     = filter (\<lambda>e. sublist ''div. 2'' (toLowerCase (contestName e))) (ratingArrays st ! r)
   \<and> resultOf (filterContestsByType st r ''Div. 3'')
     = filter (\<lambda>e. sublist ''div. 3'' (toLowerCase (contestName e))) (ratingArrays st ! r)
   \<and> resultOf (filterContestsByType st r ''Educational'')
     = filter (\<lambda>e. sublist ''educational'' (toLowerCase (contestName e))) (ratingArrays st ! r)
   \<and> resultOf (filterContestsByType st r ''All'') = ratingArrays st ! r
   \<and> (label \<notin> {''Div. 1'', ''Div. 2'', ''Div. 3'', ''Educational''} \<longrightarrow>
        resultOf (filterContestsByType st r label) = ratingArrays st ! r)"
proof -
  have m: "matchesType ''Div. 1'' = (\<lambda>e. sublist ''div. 1'' (toLowerCase (contestName e))
                  \<and> \<not> sublist ''div. 2'' (toLowerCase (contestName e)))"
    "matchesType ''Div. 2'' = (\<lambda>e. sublist ''div. 2'' (toLowerCase (contestName e)))"
    "matchesType ''Div. 3'' = (\<lambda>e. sublist ''div. 3'' (toLowerCase (contestName e)))"
    "matchesType ''Educational'' = (\<lambda>e. sublist ''educational'' (toLowerCase (contestName e)))"
    by (simp_all add: matchesType_def Let_def fun_eq_iff includesStr_iff)
  have u: "label \<notin> {''Div. 1'', ''Div. 2'', ''Div. 3'', ''Educational''} \<Longrightarrow> matchesType label = (\<lambda>e. True)"
    by (simp add: matchesType_def fun_eq_iff)
  have "label \<notin> {''Div. 1'', ''Div. 2'', ''Div. 3'', ''Educational''} \<longrightarrow>
        resultOf (filterContestsByType st r label) = ratingArrays st ! r"
    using u by (simp add: filterContestsByType_result)
  then show ?thesis
    by (simp add: filterContestsByType_result m)
qed

lemma example_names:
  "toLowerCase (contestName contestDiv2) = ''codeforces round 700 (div. 2)''"
  "toLowerCase (contestName contestCombined) = ''codeforces round 705 (div. 1 + div. 2)''"
  "toLowerCase (contestName contestEducational) = ''educational codeforces round 100''"
  "toLowerCase (contestName contestDiv1) = ''codeforces round 710 (div. 1)''"
  by (simp_all add: toLowerCase_def lowerChar_def contestDiv2_def contestCombined_def
      contestEducational_def contestDiv1_def)

lemma example_matches:
  "sublist ''div. 1'' ''codeforces round 700 (div. 2)'' = False"
  "sublist ''div. 2'' ''codeforces round 700 (div. 2)'' = True"
  "sublist ''educational'' ''codeforces round 700 (div. 2)'' = False"
  "sublist ''div. 1'' ''codeforces round 705 (div. 1 + div. 2)'' = True"
  "sublist ''div. 2'' ''codeforces round 705 (div. 1 + div. 2)'' = True"
  "sublist ''educational'' ''codeforces round 705 (div. 1 + div. 2)'' = False"
  "sublist ''div. 1'' ''educational codeforces round 100'' = False"
  "sublist ''div. 2'' ''educational codeforces round 100'' = False"
  "sublist ''educational'' ''educational codeforces round 100'' = True"
  "sublist ''div. 1'' ''codeforces round 710 (div. 1)'' = True"
  "sublist ''div. 2'' ''codeforces round 710 (div. 1)'' = False"
  "sublist ''educational'' ''codeforces round 710 (div. 1)'' = False"
  by (simp_all add: sublist_Cons_right)

theorem filterContestsByType_predicate_witness:
  "resultOf (filterContestsByType exampleStore 0 ''Div. 1'') = [contestDiv1]
   \<and> contestDiv1 \<in> set (resultOf (filterContestsByType exampleStore 0 ''Div. 1''))
   \<and> \<not> sublist ''div. 2'' (toLowerCase (contestName contestDiv1))
   \<and> resultOf (filterContestsByType exampleStore 0 ''Div. 2'') = [contestDiv2, contestCombined]
   \<and> resultOf (filterContestsByType exampleStore 0 ''Educational'') = [contestEducational]
   \<and> ''Gym'' \<notin> {''Div. 1'', ''Div. 2'', ''Div. 3'', ''Educational''}
   \<and> resultOf (filterContestsByType exampleStore 0 ''Gym'') = exampleContests"
proof -
  have a: "ratingArrays exampleStore ! 0 = [contestDiv2, contestCombined, contestEducational, contestDiv1]"
    by (simp add: exampleStore_def exampleContests_def)
  have g: "''Gym'' \<notin> {''Div. 1'', ''Div. 2'', ''Div. 3'', ''Educational''}" by simp
  from filterContestsByType_predicate[of exampleStore 0 "''Gym''"] g
  show ?thesis
    unfolding a by (simp add: example_names example_matches exampleContests_def)
qed

text \<open>
  Claim C7. With the label \<^verbatim>\<open>All\<close> each filter returns the reference it was given and
  leaves the store as it is, so the result is the input sequence itself. For every
  label the result is a subsequence of the input, in the order of the input. No array
  that exists before the call is changed by it; in particular the input array is not.
\<close>

theorem filters_preserve:
  "filterRatingHistoryByTime dateNow st r ''All'' = (r, st)
   \<and> filterContestsByType st r ''All'' = (r, st)
   \<and> resultOf (filterRatingHistoryByTime dateNow st r ''All'') = ratingArrays st ! r
   \<and> resultOf (filterContestsByType st r ''All'') = ratingArrays st ! r
   \<and> subseq (resultOf (filterRatingHistoryByTime dateNow st r timeFrame)) (ratingArrays st ! r)
   \<and> subseq (resultOf (filterContestsByType st r contestType)) (ratingArrays st ! r)
   \<and> take (length (ratingArrays st))
        (ratingArrays (snd (filterRatingHistoryByTime dateNow st r timeFrame))) = ratingArrays st
   \<and> take (length (ratingArrays st))
        (ratingArrays (snd (filterContestsByType st r contestType))) = ratingArrays st
   \<and> (r < length (ratingArrays st) \<longrightarrow>
        ratingArrays (snd (filterRatingHistoryByTime dateNow st r timeFrame)) ! r = ratingArrays st ! r
      \<and> ratingArrays (snd (filterContestsByType st r contestType)) ! r = ratingArrays st ! r)"
proof -
  have "r < length (ratingArrays st) \<longrightarrow>
        ratingArrays (snd (filterRatingHistoryByTime dateNow st r timeFrame)) ! r = ratingArrays st ! r
      \<and> ratingArrays (snd (filterContestsByType st r contestType)) ! r = ratingArrays st ! r"
  proof
    assume r: "r < length (ratingArrays st)"
    have "take (length (ratingArrays st)) (ratingArrays (snd (filterRatingHistoryByTime dateNow st r timeFrame))) ! r
            = ratingArrays (snd (filterRatingHistoryByTime dateNow st r timeFrame)) ! r"
         "take (length (ratingArrays st)) (ratingArrays (snd (filterContestsByType st r contestType))) ! r
            = ratingArrays (snd (filterContestsByType st r contestType)) ! r"
      using r by simp_all
    then show "ratingArrays (snd (filterRatingHistoryByTime dateNow st r timeFrame)) ! r = ratingArrays st ! r
      \<and> ratingArrays (snd (filterContestsByType st r contestType)) ! r = ratingArrays st ! r"
      by (simp add: filter_frame)
  qed
  moreover have "filterRatingHistoryByTime dateNow st r ''All'' = (r, st)"
    "filterContestsByType st r ''All'' = (r, st)"
    by (simp_all add: filterRatingHistoryByTime_def filterContestsByType_def)
  ultimately show ?thesis
    by (simp add: filterRatingHistoryByTime_result filterContestsByType_result filter_frame resultOf_same)
qed

theorem filters_preserve_witness:
  "0 < length (ratingArrays exampleStore)
   \<and> resultOf (filterRatingHistoryByTime 1730000000000 exampleStore 0 ''1Y'') = [contestCombined, contestEducational, contestDiv1]
   \<and> subseq [contestCombined, contestEducational, contestDiv1] exampleContests
   \<and> ratingArrays (snd (filterRatingHistoryByTime 1730000000000 exampleStore 0 ''1Y'')) ! 0 = exampleContests
   \<and> ratingArrays (snd (filterContestsByType exampleStore 0 ''Educational'')) ! 0 = exampleContests
   \<and> resultOf (filterRatingHistoryByTime 1730000000000 exampleStore 0 ''All'') = exampleContests"
proof -
  have a: "ratingArrays exampleStore ! 0 = exampleContests" "0 < length (ratingArrays exampleStore)"
    by (simp_all add: exampleStore_def)
  have y: "resultOf (filterRatingHistoryByTime 1730000000000 exampleStore 0 ''1Y'') = [contestCombined, contestEducational, contestDiv1]"
    by (simp add: filterRatingHistoryByTime_result a exampleContests_def contestDiv2_def contestCombined_def
        contestEducational_def contestDiv1_def)
  from filters_preserve[of 1730000000000 exampleStore 0 "''1Y''" "''Educational''"] a
  show ?thesis unfolding y by (simp add: resultOf_same a)
qed

section \<open>Properties of the comparison correlator\<close>

lemma newSet_snoc: "newSet (xs @ [x]) = (if x \<in> set (newSet xs) then newSet xs else newSet xs @ [x])"
  by (simp add: newSet_def)

lemma set_newSet: "set (newSet xs) = set xs"
  by (induction xs rule: rev_induct) (auto simp: newSet_snoc, simp add: newSet_def)

lemma distinct_newSet: "distinct (newSet xs)"
  by (induction xs rule: rev_induct) (simp add: newSet_def, simp add: newSet_snoc)

lemma length_newSet: "length (newSet xs) = card (set xs)"
  using distinct_card[OF distinct_newSet, of xs] by (simp add: set_newSet)

lemma newSet_distinct: "distinct xs \<Longrightarrow> newSet xs = xs"
  by (induction xs rule: rev_induct) (simp add: newSet_def, simp add: newSet_snoc set_newSet)

lemma commonProblems_set:
  "set (commonProblems a b) = problemKey ` set a \<inter> problemKey ` set b"
  "distinct (commonProblems a b)"
  by (auto simp: commonProblems_def Let_def set_newSet distinct_newSet)

lemma commonContests_set:
  "set (commonContests a b) = contestIdRC ` set a \<inter> contestIdRC ` set b"
  "distinct (commonContests a b)"
  by (auto simp: commonContests_def Let_def set_newSet distinct_newSet)

lemma commonProblems_size:
  "length (commonProblems a b) = card (problemKey ` set a \<inter> problemKey ` set b)"
  using distinct_card[OF commonProblems_set(2), of a b] by (simp add: commonProblems_set(1))

lemma commonContests_size:
  "length (commonContests a b) = card (contestIdRC ` set a \<inter> contestIdRC ` set b)"
  using distinct_card[OF commonContests_set(2), of a b] by (simp add: commonContests_set(1))

lemma processSubmissions_distinct_keys: "distinct (map problemKey (processSubmissions xs))"
proof -
  have "inj_on problemKey (set (processSubmissions xs))"
  proof (rule inj_onI)
    fix a b assume a: "a \<in> set (processSubmissions xs)" and b: "b \<in> set (processSubmissions xs)"
      and e: "problemKey a = problemKey b"
    from e have "specKey a = specKey b" by (simp add: problemKey_eq_iff)
    moreover have "inj_on specKey (set (processSubmissions xs))"
      using processSubmissions_distinct[of xs] by (simp add: distinct_map)
    ultimately show "a = b" using a b by (auto dest: inj_onD)
  qed
  moreover have "distinct (processSubmissions xs)"
    using processSubmissions_distinct[of xs] by (simp add: distinct_map)
  ultimately show ?thesis by (simp add: distinct_map)
qed

text \<open>
  Claim C9. The number of shared problems is the same with the two users exchanged;
  for a user compared with themselves it is the number of their normalized
  submissions; the number of shared contests is the same with the two users
  exchanged. Both sets are the intersections of the keys of the two inputs.
  \<^verbatim>\<open>updateComparisonUI\<close> writes the two numbers to the page and changes none of the
  arrays of the store, so none of its inputs.
\<close>

theorem comparison_overlap:
  "length (commonProblems a b) = length (commonProblems b a)
   \<and> length (commonProblems (processSubmissions raw) (processSubmissions raw))
       = length (processSubmissions raw)
   \<and> length (commonContests r1 r2) = length (commonContests r2 r1)
   \<and> set (commonProblems a b) = problemKey ` set a \<inter> problemKey ` set b
   \<and> set (commonContests r1 r2) = contestIdRC ` set r1 \<inter> contestIdRC ` set r2
   \<and> ratingArrays (updateComparisonUI st i1 i2 j1 j2) = ratingArrays st
   \<and> submissionArrays (updateComparisonUI st i1 i2 j1 j2) = submissionArrays st
   \<and> textContent (updateComparisonUI st i1 i2 j1 j2) ''commonProblems''
       = Some (numberToString (int (length
           (commonProblems (submissionArrays st ! j1) (submissionArrays st ! j2)))))
   \<and> textContent (updateComparisonUI st i1 i2 j1 j2) ''commonContests''
       = Some (numberToString (int (length
           (commonContests (ratingArrays st ! i1) (ratingArrays st ! i2)))))"
proof -
  have "length (commonProblems a b) = length (commonProblems b a)"
    by (simp add: commonProblems_size Int_commute)
  moreover have "length (commonContests r1 r2) = length (commonContests r2 r1)"
    by (simp add: commonContests_size Int_commute)
  moreover have "length (commonProblems (processSubmissions raw) (processSubmissions raw))
       = length (processSubmissions raw)"
    using distinct_card[OF processSubmissions_distinct_keys, of raw]
    by (simp add: commonProblems_size)
  ultimately show ?thesis
    by (simp add: commonProblems_set commonContests_set updateComparisonUI_def Let_def)
qed

theorem comparison_overlap_witness:
  "length (commonProblems [sub1A, sub2A] [sub2A]) = 1
   \<and> length (commonProblems [sub2A] [sub1A, sub2A]) = 1
   \<and> length (commonProblems (processSubmissions exampleSubmissions) (processSubmissions exampleSubmissions)) = 2
   \<and> length (commonContests exampleContests [contestCombined]) = 1
   \<and> submissionArrays (updateComparisonUI exampleStore 0 0 0 0) = [exampleSubmissions]
   \<and> ratingArrays (updateComparisonUI exampleStore 0 0 0 0) = [exampleContests]
   \<and> textContent (updateComparisonUI exampleStore 0 0 0 0) ''commonContests'' = Some ''4''"
proof -
  have k: "problemKey sub1A = ''1-A''" "problemKey sub2A = ''2-A''"
    by (simp_all add: problemKey_def sub1A_def sub2A_def numberToString_def digits.simps digitChar_def)
  have p: "commonProblems [sub1A, sub2A] [sub2A] = [''2-A'']"
    by (simp add: commonProblems_def newSet_def k)
  have c: "commonContests exampleContests [contestCombined] = [1510]"
    "commonContests exampleContests exampleContests = [1500, 1510, 1520, 1530]"
    by (simp_all add: commonContests_def newSet_def exampleContests_def contestDiv2_def contestCombined_def
        contestEducational_def contestDiv1_def)
  have n: "numberToString 4 = ''4''" by (simp add: numberToString_def digits.simps digitChar_def)
  have s: "ratingArrays exampleStore = [exampleContests]" "submissionArrays exampleStore = [exampleSubmissions]"
    by (simp_all add: exampleStore_def)
  note t = comparison_overlap[of "[sub1A, sub2A]" "[sub2A]" exampleSubmissions exampleContests
      "[contestCombined]" exampleStore 0 0 0 0]
  from t p have "length (commonProblems [sub2A] [sub1A, sub2A]) = 1" by simp
  moreover from t have "length (commonProblems (processSubmissions exampleSubmissions) (processSubmissions exampleSubmissions)) = 2"
    by (simp add: example_run)
  moreover from t have "textContent (updateComparisonUI exampleStore 0 0 0 0) ''commonContests'' = Some ''4''"
    by (simp add: s c n)
  moreover from t have "submissionArrays (updateComparisonUI exampleStore 0 0 0 0) = [exampleSubmissions]"
    "ratingArrays (updateComparisonUI exampleStore 0 0 0 0) = [exampleContests]"
    by (simp_all add: s)
  ultimately show ?thesis using p c by simp
qed

section \<open>Properties of the queries\<close>

lemma filter_head: "filter Q L = j # js \<Longrightarrow> Q j"
  by (induction L) (auto split: if_splits)

lemma filter_nonempty: "i \<in> set L \<Longrightarrow> Q i \<Longrightarrow> filter Q L \<noteq> []"
  by (induction L) auto

lemma firstRejection_None: "firstRejection order rs = None \<longleftrightarrow> (\<forall>r \<in> set rs. r = None)"
proof
  let ?Q = "\<lambda>i. i < length rs \<and> rs ! i \<noteq> None"
  assume a: "firstRejection order rs = None"
  show "\<forall>r \<in> set rs. r = None"
  proof (rule ccontr)
    assume "\<not> (\<forall>r \<in> set rs. r = None)"
    then obtain i where i: "i < length rs" "rs ! i \<noteq> None" by (auto simp: in_set_conv_nth)
    then have "i \<in> set (order @ [0..<length rs])" "?Q i" by simp_all
    then have ne: "filter ?Q (order @ [0..<length rs]) \<noteq> []" by (rule filter_nonempty)
    show False
    proof (cases "filter ?Q (order @ [0..<length rs])")
      case Nil
      then show False using ne by contradiction
    next
      case (Cons j js)
      then have "?Q j" by (rule filter_head)
      moreover have "firstRejection order rs = rs ! j" using Cons by (simp add: firstRejection_def)
      ultimately show False using a by simp
    qed
  qed
next
  let ?Q = "\<lambda>i. i < length rs \<and> rs ! i \<noteq> None"
  assume a: "\<forall>r \<in> set rs. r = None"
  have "filter ?Q (order @ [0..<length rs]) = []"
  proof (cases "filter ?Q (order @ [0..<length rs])")
    case Nil
    then show ?thesis .
  next
    case (Cons j js)
    then have "?Q j" by (rule filter_head)
    then have "rs ! j \<in> set rs" "rs ! j \<noteq> None" by simp_all
    then have False using a by simp
    then show ?thesis ..
  qed
  then show "firstRejection order rs = None" by (simp add: firstRejection_def)
qed

lemma firstRejection_Some: "firstRejection order rs = Some e \<Longrightarrow> Some e \<in> set rs"
proof -
  let ?Q = "\<lambda>i. i < length rs \<and> rs ! i \<noteq> None"
  assume a: "firstRejection order rs = Some e"
  show ?thesis
  proof (cases "filter ?Q (order @ [0..<length rs])")
    case Nil
    then show ?thesis using a by (simp add: firstRejection_def)
  next
    case (Cons j js)
    then have "?Q j" by (rule filter_head)
    then have "rs ! j \<in> set rs" by simp
    moreover have "rs ! j = Some e" using a Cons by (simp add: firstRejection_def)
    ultimately show ?thesis by simp
  qed
qed

lemma rejection_simps:
  "rejection (Returned v) = None" "rejection ReturnedUndefined = None" "rejection (Thrown e) = Some e"
  "rejection (catchEmpty p) = None"
  by (simp_all add: rejection_def catchEmpty_def split: completion.splits)

lemma promiseAll3_resolved:
  assumes "rejection p0 = None" "rejection p1 = None" "rejection p2 = None"
  shows "promiseAll3 order p0 p1 p2 = Returned (resolved p0, resolved p1, resolved p2)"
proof -
  have "firstRejection order [rejection p0, rejection p1, rejection p2] = None"
    using assms by (simp add: firstRejection_None)
  then show ?thesis by (simp add: promiseAll3_def)
qed

lemma promiseAll3_rejected:
  assumes "rejection p0 \<noteq> None \<or> rejection p1 \<noteq> None \<or> rejection p2 \<noteq> None"
  shows "\<exists>e. promiseAll3 order p0 p1 p2 = Thrown e
             \<and> (p0 = Thrown e \<or> p1 = Thrown e \<or> p2 = Thrown e)"
proof -
  have "firstRejection order [rejection p0, rejection p1, rejection p2] \<noteq> None"
    using assms by (auto simp: firstRejection_None)
  then obtain e where e: "firstRejection order [rejection p0, rejection p1, rejection p2] = Some e"
    by auto
  from firstRejection_Some[OF e] have "p0 = Thrown e \<or> p1 = Thrown e \<or> p2 = Thrown e"
    by (auto simp: rejection_def split: completion.splits)
  then show ?thesis using e by (auto simp: promiseAll3_def)
qed

lemma promiseAll2_resolved:
  assumes "rejection p0 = None" "rejection p1 = None"
  shows "promiseAll2 order p0 p1 = Returned (resolved p0, resolved p1)"
proof -
  have "firstRejection order [rejection p0, rejection p1] = None"
    using assms by (simp add: firstRejection_None)
  then show ?thesis by (simp add: promiseAll2_def)
qed

lemma promiseAll2_rejected:
  assumes "rejection p0 \<noteq> None \<or> rejection p1 \<noteq> None"
  shows "\<exists>e. promiseAll2 order p0 p1 = Thrown e \<and> (p0 = Thrown e \<or> p1 = Thrown e)"
proof -
  have "firstRejection order [rejection p0, rejection p1] \<noteq> None"
    using assms by (auto simp: firstRejection_None)
  then obtain e where e: "firstRejection order [rejection p0, rejection p1] = Some e"
    by auto
  from firstRejection_Some[OF e] have "p0 = Thrown e \<or> p1 = Thrown e"
    by (auto simp: rejection_def split: completion.splits)
  then show ?thesis using e by (auto simp: promiseAll2_def)
qed

lemma analyzeUser_ok:
  assumes "handle \<noteq> []" "trim handle \<noteq> []"
    and "getUserInfo net handle = Returned u" "getUserSubmissions net handle = Returned subs"
  shows "analyzeUser net order handle
     = Shown \<lparr>currentUser = u,
              currentUserRatingHistory =
                (case getUserRating net handle of Returned h \<Rightarrow> h | _ \<Rightarrow> []),
              currentUserSubmissions = subs,
              shownSolved = processSubmissions subs,
              shownProblemStats = calculateProblemStats (processSubmissions subs),
              shownContestStats =
                calculateContestStats (case getUserRating net handle of Returned h \<Rightarrow> h | _ \<Rightarrow> [])\<rparr>
     \<or> (getUserRating net handle = ReturnedUndefined
        \<and> analyzeUser net order handle = ErrorShown (''Error: '' @ message (typeErrorReading ''length'')))"
proof -
  have "promiseAll3 order (getUserInfo net handle) (catchEmpty (getUserRating net handle))
          (getUserSubmissions net handle)
        = Returned (Some u, resolved (catchEmpty (getUserRating net handle)), Some subs)"
    using assms(3,4) by (simp add: promiseAll3_resolved rejection_simps resolved_def)
  then show ?thesis using assms(1,2)
    by (cases "getUserRating net handle") (simp_all add: analyzeUser_def catchEmpty_def resolved_def)
qed

lemma analyzeUser_fatal:
  assumes "handle \<noteq> []" "trim handle \<noteq> []"
    and "getUserInfo net handle = Thrown e \<or> getUserSubmissions net handle = Thrown e"
  shows "\<exists>e'. (getUserInfo net handle = Thrown e' \<or> getUserSubmissions net handle = Thrown e')
          \<and> analyzeUser net order handle = ErrorShown (''Error: '' @ message e')"
proof -
  have "rejection (getUserInfo net handle) \<noteq> None \<or> rejection (catchEmpty (getUserRating net handle)) \<noteq> None
      \<or> rejection (getUserSubmissions net handle) \<noteq> None"
    using assms(3) by (auto simp: rejection_simps)
  from promiseAll3_rejected[OF this, of order]
  obtain e' where e': "promiseAll3 order (getUserInfo net handle) (catchEmpty (getUserRating net handle))
          (getUserSubmissions net handle) = Thrown e'"
    "getUserInfo net handle = Thrown e' \<or> catchEmpty (getUserRating net handle) = Thrown e'
      \<or> getUserSubmissions net handle = Thrown e'" by blast
  have "catchEmpty (getUserRating net handle) \<noteq> Thrown e'"
    using rejection_simps(4)[of "getUserRating net handle"] by (auto simp: rejection_def)
  then have "getUserInfo net handle = Thrown e' \<or> getUserSubmissions net handle = Thrown e'"
    using e'(2) by blast
  moreover have "analyzeUser net order handle = ErrorShown (''Error: '' @ message e')"
    using assms(1,2) e'(1) by (simp add: analyzeUser_def)
  ultimately show ?thesis by blast
qed

lemma fetchWithRetry_first:
  "attempt (fetch url 0) = Inr p \<Longrightarrow> outcome (fetchWithRetry fetch url None) = Returned p"
  by (simp add: fetchWithRetry_def retryLoop_ok)

lemma fetchWithRetry_exhausted:
  assumes "attempt (fetch url 0) = Inl e0" "attempt (fetch url 1) = Inl e1" "attempt (fetch url 2) = Inl e2"
  shows "outcome (fetchWithRetry fetch url None) = Thrown e2"
  unfolding fetchWithRetry_two_failures[where fetch = fetch and url = url, OF assms(1,2)]
  using assms(3) by (simp add: retryLoop_last)

lemma fetchWithRetry_defined: "outcome (fetchWithRetry fetch url None) \<noteq> ReturnedUndefined"
proof -
  have "(0::int) \<le> 0" "(0::int) < 3" by simp_all
  from retryLoop_settles[OF this, of "fetch url" "[]"] show ?thesis
    by (auto simp: fetchWithRetry_def)
qed

lemma getUserRating_defined: "getUserRating net handle \<noteq> ReturnedUndefined"
  by (simp add: getUserRating_def fetchWithRetry_defined)

lemma getUserSubmissions_defined: "getUserSubmissions net handle \<noteq> ReturnedUndefined"
  by (simp add: getUserSubmissions_def fetchWithRetry_defined)

lemma inner_ok:
  assumes "getUserInfo net handle = Returned u" "getUserSubmissions net handle = Returned subs"
  shows "promiseAll3 order (getUserInfo net handle) (catchEmpty (getUserRating net handle))
           (getUserSubmissions net handle)
         = Returned (Some u, Some (case getUserRating net handle of Returned h \<Rightarrow> h | _ \<Rightarrow> []), Some subs)"
proof -
  have "resolved (catchEmpty (getUserRating net handle))
          = Some (case getUserRating net handle of Returned h \<Rightarrow> h | _ \<Rightarrow> [])"
    using getUserRating_defined[of net handle]
    by (cases "getUserRating net handle") (simp_all add: catchEmpty_def resolved_def)
  then show ?thesis
    using assms by (simp add: promiseAll3_resolved rejection_simps resolved_def)
qed

lemma inner_fatal:
  assumes "getUserInfo net handle = Thrown e \<or> getUserSubmissions net handle = Thrown e"
  shows "\<exists>e'. (getUserInfo net handle = Thrown e' \<or> getUserSubmissions net handle = Thrown e')
          \<and> promiseAll3 order (getUserInfo net handle) (catchEmpty (getUserRating net handle))
               (getUserSubmissions net handle) = Thrown e'"
proof -
  have "rejection (getUserInfo net handle) \<noteq> None \<or> rejection (catchEmpty (getUserRating net handle)) \<noteq> None
      \<or> rejection (getUserSubmissions net handle) \<noteq> None"
    using assms by (auto simp: rejection_simps)
  from promiseAll3_rejected[OF this, of order]
  obtain e' where e': "promiseAll3 order (getUserInfo net handle) (catchEmpty (getUserRating net handle))
          (getUserSubmissions net handle) = Thrown e'"
    "getUserInfo net handle = Thrown e' \<or> catchEmpty (getUserRating net handle) = Thrown e'
      \<or> getUserSubmissions net handle = Thrown e'" by blast
  have "catchEmpty (getUserRating net handle) \<noteq> Thrown e'"
    using rejection_simps(4)[of "getUserRating net handle"] by (auto simp: rejection_def)
  then have "getUserInfo net handle = Thrown e' \<or> getUserSubmissions net handle = Thrown e'"
    using e'(2) by blast
  then show ?thesis using e'(1) by blast
qed

lemma inner_settles:
  "(\<exists>e. promiseAll3 order (getUserInfo net handle) (catchEmpty (getUserRating net handle))
           (getUserSubmissions net handle) = Thrown e)
   \<or> (\<exists>v. promiseAll3 order (getUserInfo net handle) (catchEmpty (getUserRating net handle))
           (getUserSubmissions net handle) = Returned v)"
  by (simp add: promiseAll3_def split: option.splits)

lemma compareUsers_ok:
  assumes "handle1 \<noteq> []" "trim handle1 \<noteq> []" "handle2 \<noteq> []" "trim handle2 \<noteq> []"
    and "getUserInfo net1 handle1 = Returned a" "getUserSubmissions net1 handle1 = Returned s1"
    and "getUserInfo net2 handle2 = Returned b" "getUserSubmissions net2 handle2 = Returned s2"
  shows "compareUsers net1 net2 order1 order2 order handle1 handle2
     = Shown \<lparr>user1 = a, user2 = b,
              user1Rating = (case getUserRating net1 handle1 of Returned h \<Rightarrow> h | _ \<Rightarrow> []),
              user2Rating = (case getUserRating net2 handle2 of Returned h \<Rightarrow> h | _ \<Rightarrow> []),
              user1Accepted = processSubmissions s1,
              user2Accepted = processSubmissions s2\<rparr>"
proof -
  note i1 = inner_ok[OF assms(5,6), of order1] and i2 = inner_ok[OF assms(7,8), of order2]
  show ?thesis
    using assms(1-4) unfolding compareUsers_def i1 i2
    by (simp add: promiseAll2_resolved rejection_simps resolved_def)
qed

lemma compareUsers_fatal:
  assumes "handle1 \<noteq> []" "trim handle1 \<noteq> []" "handle2 \<noteq> []" "trim handle2 \<noteq> []"
    and "getUserInfo net1 handle1 = Thrown e \<or> getUserSubmissions net1 handle1 = Thrown e
       \<or> getUserInfo net2 handle2 = Thrown e \<or> getUserSubmissions net2 handle2 = Thrown e"
  shows "\<exists>e'. (getUserInfo net1 handle1 = Thrown e' \<or> getUserSubmissions net1 handle1 = Thrown e'
             \<or> getUserInfo net2 handle2 = Thrown e' \<or> getUserSubmissions net2 handle2 = Thrown e')
          \<and> compareUsers net1 net2 order1 order2 order handle1 handle2
               = ErrorShown (''Error: '' @ message e')"
proof -
  let ?P1 = "promiseAll3 order1 (getUserInfo net1 handle1) (catchEmpty (getUserRating net1 handle1))
               (getUserSubmissions net1 handle1)"
  let ?P2 = "promiseAll3 order2 (getUserInfo net2 handle2) (catchEmpty (getUserRating net2 handle2))
               (getUserSubmissions net2 handle2)"
  have src1: "?P1 = Thrown x \<Longrightarrow>
      getUserInfo net1 handle1 = Thrown x \<or> getUserSubmissions net1 handle1 = Thrown x" for x
  proof -
    assume t: "?P1 = Thrown x"
    then have r: "firstRejection order1 [rejection (getUserInfo net1 handle1),
        rejection (catchEmpty (getUserRating net1 handle1)), rejection (getUserSubmissions net1 handle1)] = Some x"
      by (simp add: promiseAll3_def split: option.splits)
    from firstRejection_Some[OF r] show ?thesis
      by (auto simp: rejection_simps) (auto simp: rejection_def split: completion.splits)
  qed
  have src2: "?P2 = Thrown x \<Longrightarrow>
      getUserInfo net2 handle2 = Thrown x \<or> getUserSubmissions net2 handle2 = Thrown x" for x
  proof -
    assume t: "?P2 = Thrown x"
    then have r: "firstRejection order2 [rejection (getUserInfo net2 handle2),
        rejection (catchEmpty (getUserRating net2 handle2)), rejection (getUserSubmissions net2 handle2)] = Some x"
      by (simp add: promiseAll3_def split: option.splits)
    from firstRejection_Some[OF r] show ?thesis
      by (auto simp: rejection_simps) (auto simp: rejection_def split: completion.splits)
  qed
  have "(\<exists>x. ?P1 = Thrown x) \<or> (\<exists>x. ?P2 = Thrown x)"
    using assms(5) inner_fatal[of net1 handle1 e order1] inner_fatal[of net2 handle2 e order2] by blast
  then have "rejection ?P1 \<noteq> None \<or> rejection ?P2 \<noteq> None"
    by (auto simp: rejection_def)
  from promiseAll2_rejected[OF this, of order]
  obtain e' where e': "promiseAll2 order ?P1 ?P2 = Thrown e'" "?P1 = Thrown e' \<or> ?P2 = Thrown e'"
    by blast
  from e'(2) src1 src2
  have "getUserInfo net1 handle1 = Thrown e' \<or> getUserSubmissions net1 handle1 = Thrown e'
      \<or> getUserInfo net2 handle2 = Thrown e' \<or> getUserSubmissions net2 handle2 = Thrown e'"
    by blast
  moreover have "compareUsers net1 net2 order1 order2 order handle1 handle2
               = ErrorShown (''Error: '' @ message e')"
    using assms(1-4) e'(1) by (simp add: compareUsers_def)
  ultimately show ?thesis by blast
qed

text \<open>
  Claim C3. For handles that pass the check, in the single-user analysis and in the
  two-user comparison: when the profile lookup and the submission lookup succeed, a
  rating lookup that throws (after its three attempts) is replaced by the empty
  sequence and the view is shown, with the contest statistics of the empty history;
  when the profile lookup or the submission lookup of a user throws, nothing is shown
  but an error, whose message is that of one of the lookups that threw.
\<close>

theorem rating_lookup_failure_absorbed:
  assumes "handle1 \<noteq> []" "trim handle1 \<noteq> []" "handle2 \<noteq> []" "trim handle2 \<noteq> []"
  shows
    "(getUserInfo net1 handle1 = Returned a \<and> getUserSubmissions net1 handle1 = Returned s1
        \<and> getUserRating net1 handle1 = Thrown e \<longrightarrow>
      analyzeUser net1 order1 handle1
        = Shown \<lparr>currentUser = a, currentUserRatingHistory = [], currentUserSubmissions = s1,
                 shownSolved = processSubmissions s1,
                 shownProblemStats = calculateProblemStats (processSubmissions s1),
                 shownContestStats = calculateContestStats []\<rparr>)
   \<and> (getUserInfo net1 handle1 = Thrown e \<or> getUserSubmissions net1 handle1 = Thrown e \<longrightarrow>
        (\<exists>e'. (getUserInfo net1 handle1 = Thrown e' \<or> getUserSubmissions net1 handle1 = Thrown e')
            \<and> analyzeUser net1 order1 handle1 = ErrorShown (''Error: '' @ message e')))
   \<and> (getUserInfo net1 handle1 = Returned a \<and> getUserSubmissions net1 handle1 = Returned s1
        \<and> getUserInfo net2 handle2 = Returned b \<and> getUserSubmissions net2 handle2 = Returned s2 \<longrightarrow>
      compareUsers net1 net2 order1 order2 order handle1 handle2
        = Shown \<lparr>user1 = a, user2 = b,
                 user1Rating = (case getUserRating net1 handle1 of Returned h \<Rightarrow> h | _ \<Rightarrow> []),
                 user2Rating = (case getUserRating net2 handle2 of Returned h \<Rightarrow> h | _ \<Rightarrow> []),
                 user1Accepted = processSubmissions s1,
                 user2Accepted = processSubmissions s2\<rparr>)
   \<and> (getUserInfo net1 handle1 = Thrown e \<or> getUserSubmissions net1 handle1 = Thrown e
        \<or> getUserInfo net2 handle2 = Thrown e \<or> getUserSubmissions net2 handle2 = Thrown e \<longrightarrow>
        (\<exists>e'. (getUserInfo net1 handle1 = Thrown e' \<or> getUserSubmissions net1 handle1 = Thrown e'
              \<or> getUserInfo net2 handle2 = Thrown e' \<or> getUserSubmissions net2 handle2 = Thrown e')
            \<and> compareUsers net1 net2 order1 order2 order handle1 handle2
                 = ErrorShown (''Error: '' @ message e')))"
proof (intro conjI impI)
  assume h: "getUserInfo net1 handle1 = Returned a \<and> getUserSubmissions net1 handle1 = Returned s1
        \<and> getUserRating net1 handle1 = Thrown e"
  then have "promiseAll3 order1 (getUserInfo net1 handle1) (catchEmpty (getUserRating net1 handle1))
           (getUserSubmissions net1 handle1) = Returned (Some a, Some [], Some s1)"
    using inner_ok[of net1 handle1 a s1 order1] by simp
  then show "analyzeUser net1 order1 handle1
        = Shown \<lparr>currentUser = a, currentUserRatingHistory = [], currentUserSubmissions = s1,
                 shownSolved = processSubmissions s1,
                 shownProblemStats = calculateProblemStats (processSubmissions s1),
                 shownContestStats = calculateContestStats []\<rparr>"
    using assms(1,2) by (simp add: analyzeUser_def)
next
  assume f: "getUserInfo net1 handle1 = Thrown e \<or> getUserSubmissions net1 handle1 = Thrown e"
  show "\<exists>e'. (getUserInfo net1 handle1 = Thrown e' \<or> getUserSubmissions net1 handle1 = Thrown e')
            \<and> analyzeUser net1 order1 handle1 = ErrorShown (''Error: '' @ message e')"
    by (rule analyzeUser_fatal[OF assms(1,2) f])
next
  assume h: "getUserInfo net1 handle1 = Returned a \<and> getUserSubmissions net1 handle1 = Returned s1
        \<and> getUserInfo net2 handle2 = Returned b \<and> getUserSubmissions net2 handle2 = Returned s2"
  from h have h1: "getUserInfo net1 handle1 = Returned a" and h2: "getUserSubmissions net1 handle1 = Returned s1"
    and h3: "getUserInfo net2 handle2 = Returned b" and h4: "getUserSubmissions net2 handle2 = Returned s2"
    by blast+
  show "compareUsers net1 net2 order1 order2 order handle1 handle2
        = Shown \<lparr>user1 = a, user2 = b,
                 user1Rating = (case getUserRating net1 handle1 of Returned h \<Rightarrow> h | _ \<Rightarrow> []),
                 user2Rating = (case getUserRating net2 handle2 of Returned h \<Rightarrow> h | _ \<Rightarrow> []),
                 user1Accepted = processSubmissions s1,
                 user2Accepted = processSubmissions s2\<rparr>"
    by (rule compareUsers_ok[OF assms h1 h2 h3 h4])
next
  assume f: "getUserInfo net1 handle1 = Thrown e \<or> getUserSubmissions net1 handle1 = Thrown e
        \<or> getUserInfo net2 handle2 = Thrown e \<or> getUserSubmissions net2 handle2 = Thrown e"
  show "\<exists>e'. (getUserInfo net1 handle1 = Thrown e' \<or> getUserSubmissions net1 handle1 = Thrown e'
              \<or> getUserInfo net2 handle2 = Thrown e' \<or> getUserSubmissions net2 handle2 = Thrown e')
            \<and> compareUsers net1 net2 order1 order2 order handle1 handle2
                 = ErrorShown (''Error: '' @ message e')"
    by (rule compareUsers_fatal[OF assms f])
qed

lemma example_lookups:
  "getUserInfo unratedService ''tourist'' = Returned ''tourist''"
  "getUserRating unratedService ''tourist'' = Thrown (Error ''handle: rating unavailable'')"
  "getUserSubmissions unratedService ''tourist'' = Returned exampleSubmissions"
  "getUserInfo downService ''tourist'' = Returned ''tourist''"
  "getUserSubmissions downService ''tourist''
     = Thrown (Error ''handle: User with handle nobody not found'')"
proof -
  have i: "attempt (userInfo unratedService url 0) = Inr [''tourist'']" for url
    by (simp add: unratedService_def attempt_def)
  have r: "attempt (userRating unratedService url n) = Inl (Error ''handle: rating unavailable'')" for url n
    by (simp add: unratedService_def attempt_def orElse_def)
  have s: "attempt (userStatus unratedService url 0) = Inr exampleSubmissions" for url
    by (simp add: unratedService_def attempt_def)
  have d: "attempt (userStatus downService url 0) = Inl (Error ''Failed to fetch'')"
    "attempt (userStatus downService url 1) = Inl (Error ''Failed to fetch'')"
    "attempt (userStatus downService url 2) = Inl (Error ''handle: User with handle nobody not found'')" for url
    by (simp_all add: downService_def failingService_def attempt_def orElse_def)
  have di: "userInfo downService = userInfo unratedService" by (simp add: downService_def)
  show "getUserInfo unratedService ''tourist'' = Returned ''tourist''"
    by (simp add: getUserInfo_def fetchWithRetry_first[where fetch = "userInfo unratedService", OF i])
  show "getUserRating unratedService ''tourist'' = Thrown (Error ''handle: rating unavailable'')"
    by (simp add: getUserRating_def fetchWithRetry_exhausted[where fetch = "userRating unratedService", OF r r r])
  show "getUserSubmissions unratedService ''tourist'' = Returned exampleSubmissions"
    by (simp add: getUserSubmissions_def fetchWithRetry_first[where fetch = "userStatus unratedService", OF s])
  show "getUserInfo downService ''tourist'' = Returned ''tourist''"
    by (simp add: getUserInfo_def di fetchWithRetry_first[where fetch = "userInfo unratedService", OF i])
  show "getUserSubmissions downService ''tourist''
     = Thrown (Error ''handle: User with handle nobody not found'')"
    by (simp add: getUserSubmissions_def fetchWithRetry_exhausted[where fetch = "userStatus downService", OF d])
qed

theorem rating_lookup_failure_absorbed_witness:
  "analyzeUser unratedService [] ''tourist''
     = Shown \<lparr>currentUser = ''tourist'', currentUserRatingHistory = [],
              currentUserSubmissions = exampleSubmissions,
              shownSolved = processSubmissions exampleSubmissions,
              shownProblemStats = calculateProblemStats (processSubmissions exampleSubmissions),
              shownContestStats = calculateContestStats []\<rparr>
   \<and> analyzeUser downService [] ''tourist''
     = ErrorShown ''Error: handle: User with handle nobody not found''
   \<and> compareUsers unratedService unratedService [] [] [] ''tourist'' ''tourist''
     = Shown \<lparr>user1 = ''tourist'', user2 = ''tourist'', user1Rating = [], user2Rating = [],
              user1Accepted = processSubmissions exampleSubmissions,
              user2Accepted = processSubmissions exampleSubmissions\<rparr>
   \<and> compareUsers unratedService downService [] [] [] ''tourist'' ''tourist''
     = ErrorShown ''Error: handle: User with handle nobody not found''"
proof -
  have v: "''tourist'' \<noteq> []" "trim ''tourist'' \<noteq> []"
    by (simp_all add: trim_def isSpace_def)
  note t1 = rating_lookup_failure_absorbed[OF v v, where ?net1.0 = unratedService and ?net2.0 = unratedService
      and ?order1.0 = "[]" and ?order2.0 = "[]" and order = "[]"
      and a = "''tourist''" and b = "''tourist''" and ?s1.0 = exampleSubmissions and ?s2.0 = exampleSubmissions
      and e = "Error ''handle: rating unavailable''"]
  note t2 = rating_lookup_failure_absorbed[OF v v, where ?net1.0 = downService and ?net2.0 = unratedService
      and ?order1.0 = "[]" and ?order2.0 = "[]" and order = "[]"
      and e = "Error ''handle: User with handle nobody not found''"]
  note t3 = rating_lookup_failure_absorbed[OF v v, where ?net1.0 = unratedService and ?net2.0 = downService
      and ?order1.0 = "[]" and ?order2.0 = "[]" and order = "[]"
      and e = "Error ''handle: User with handle nobody not found''"]
  have i: "getUserInfo downService ''tourist'' \<noteq> Thrown x" 
          "getUserInfo unratedService ''tourist'' \<noteq> Thrown x"
          "getUserSubmissions unratedService ''tourist'' \<noteq> Thrown x" for x
    by (simp_all add: example_lookups)
  from t1 have "analyzeUser unratedService [] ''tourist''
     = Shown \<lparr>currentUser = ''tourist'', currentUserRatingHistory = [],
              currentUserSubmissions = exampleSubmissions,
              shownSolved = processSubmissions exampleSubmissions,
              shownProblemStats = calculateProblemStats (processSubmissions exampleSubmissions),
              shownContestStats = calculateContestStats []\<rparr>"
    by (simp add: example_lookups)
  moreover from t1 have "compareUsers unratedService unratedService [] [] [] ''tourist'' ''tourist''
     = Shown \<lparr>user1 = ''tourist'', user2 = ''tourist'', user1Rating = [], user2Rating = [],
              user1Accepted = processSubmissions exampleSubmissions,
              user2Accepted = processSubmissions exampleSubmissions\<rparr>"
    by (simp add: example_lookups)
  moreover from t2 i have "analyzeUser downService [] ''tourist''
     = ErrorShown ''Error: handle: User with handle nobody not found''"
    by (auto simp: example_lookups)
  moreover from t3 i have "compareUsers unratedService downService [] [] [] ''tourist'' ''tourist''
     = ErrorShown ''Error: handle: User with handle nobody not found''"
    by (auto simp: example_lookups)
  ultimately show ?thesis by simp
qed

end
